theory Spec2Isabelle
  imports Complex_Main "HOL-Library.AList" "HOL-Library.Sublist"
begin

section \<open>JointTransform: per-key transforms on a TensorDict\<close>

text \<open>
  The development follows \<^verbatim>\<open>src/causica/distributions/transforms.py\<close>: the class
  \<^verbatim>\<open>JointTransform\<close>, its constructor, \<^verbatim>\<open>_call\<close>, \<^verbatim>\<open>_inverse\<close>,
  \<^verbatim>\<open>log_abs_det_jacobian\<close> and the properties \<^verbatim>\<open>bijective\<close>, \<^verbatim>\<open>domain\<close>,
  \<^verbatim>\<open>codomain\<close>.

  Python dictionaries and TensorDicts keep insertion order and have unique keys: they are
  association lists here, and the predicate \<open>distinct (keys d)\<close> says that a list is a
  dictionary. TensorDicts are mutable objects: they live in a store, are passed by
  reference, and \<^verbatim>\<open>update\<close> writes into the store, or raises when a value does not
  have the batch dimensions of the object. Every call of an elementary
  transform is recorded in the store's event list, so that "no transform was invoked" can
  be stated. Exceptions are values of a sum type.
\<close>

subsection \<open>Tensors\<close>

type_synonym key = string

text \<open>
  A tensor is its shape and its elements in row-major order. The element type is a
  parameter: the claims depend on the keys and on which function is applied to which field,
  never on floating-point arithmetic.
\<close>

datatype 'a tensor = Tensor (shape: "nat list") (elems: "'a list")

text \<open>\<^verbatim>\<open>torch.ones_like(t)\<close>: a tensor of the size of \<open>t\<close>, filled with the scalar one.\<close>

definition ones_like :: "'a::one tensor \<Rightarrow> 'a tensor" where
  "ones_like t = Tensor (shape t) (replicate (prod_list (shape t)) 1)"

subsection \<open>Exceptions\<close>

text \<open>
  \<^verbatim>\<open>AssertionError\<close>, \<^verbatim>\<open>ValueError\<close> and \<^verbatim>\<open>KeyError\<close> carry their message or key.
  \<^verbatim>\<open>RuntimeError\<close> is what a TensorDict raises when a value is stored whose leading
  dimensions are not the batch size; its message reports the batch size and the shape of
  the value, which are kept here as they are.
\<close>

datatype error =
    AssertionError string
  | ValueError string
  | KeyError key
  | RuntimeError "nat list" "nat list"

subsection \<open>Dictionaries and TensorDicts\<close>

text \<open>
  \<open>'a tensordict\<close> is a dictionary from keys to tensors: the argument of \<^verbatim>\<open>update\<close>, and
  the fields of a TensorDict. \<^verbatim>\<open>TensorDict\<close> is a class of the tensordict library, which
  is not part of the source; it is modelled by what JointTransform uses of it:
  \<^verbatim>\<open>keys()\<close>, \<^verbatim>\<open>x[key]\<close>, \<^verbatim>\<open>clone()\<close> and \<^verbatim>\<open>update()\<close>, with the validation of
  the batch dimensions that \<^verbatim>\<open>update\<close> makes.
\<close>

type_synonym 'a tensordict = "(key \<times> 'a tensor) list"

definition keys :: "(key \<times> 'v) list \<Rightarrow> key list" where
  "keys d = map fst d"

text \<open>\<^verbatim>\<open>d[key]\<close> raises \<^verbatim>\<open>KeyError\<close> on a missing key.\<close>

definition getitem :: "(key \<times> 'v) list \<Rightarrow> key \<Rightarrow> error + 'v" where
  "getitem d k = (case map_of d k of None \<Rightarrow> Inl (KeyError k) | Some v \<Rightarrow> Inr v)"

text \<open>\<^verbatim>\<open>d[key] = v\<close>: overwrite in place, or append a new key.\<close>

definition setitem :: "key \<Rightarrow> 'v \<Rightarrow> (key \<times> 'v) list \<Rightarrow> (key \<times> 'v) list" where
  "setitem k v d = AList.update k v d"

subsection \<open>Elementary transforms\<close>

type_synonym constraint = string

text \<open>
  A \<^verbatim>\<open>torch.distributions.Transform\<close> is supplied by the caller. It is modelled by what
  JointTransform uses of it: its class name, \<^verbatim>\<open>t(x)\<close>, \<^verbatim>\<open>t.inv(y)\<close>,
  \<^verbatim>\<open>t.log_abs_det_jacobian(x, y)\<close>, and the attributes \<^verbatim>\<open>bijective\<close>,
  \<^verbatim>\<open>domain\<close>, \<^verbatim>\<open>codomain\<close> and \<^verbatim>\<open>_cache_size\<close>. The three calls are functions
  of the values of their arguments: a transform does not write to a tensor it is given, and
  the one-slot cache of torch, which is keyed by object identity, is not modelled.
\<close>

record 'a Transform =
  t_name :: string
  t_call :: "'a tensor \<Rightarrow> 'a tensor"
  t_inv :: "'a tensor \<Rightarrow> 'a tensor"
  t_log_abs_det_jacobian :: "'a tensor \<Rightarrow> 'a tensor \<Rightarrow> 'a tensor"
  t_bijective :: bool
  t_domain :: constraint
  t_codomain :: constraint
  t_cache_size :: int

text \<open>
  The constructor receives arbitrary Python objects as dictionary values: a Transform, or an
  object of another type, of which only the type's name matters.
\<close>

datatype 'a pyobj = TransformObj "'a Transform" | OtherObj string

fun isinstance_Transform :: "'a pyobj \<Rightarrow> bool" where
  "isinstance_Transform (TransformObj t) = True"
| "isinstance_Transform (OtherObj n) = False"

fun type_name :: "'a pyobj \<Rightarrow> string" where
  "type_name (TransformObj t) = t_name t"
| "type_name (OtherObj n) = n"

text \<open>The text of \<^verbatim>\<open>type(t)\<close> in an f-string: \<^verbatim>\<open><class 'name'>\<close>.\<close>

definition type_repr :: "string \<Rightarrow> string" where
  "type_repr n = ''<class '' @ [CHR 0x27] @ n @ [CHR 0x27] @ ''>''"

fun join :: "string \<Rightarrow> string list \<Rightarrow> string" where
  "join sep [] = []"
| "join sep [s] = s"
| "join sep (s # t # ts) = s @ sep @ join sep (t # ts)"

definition list_repr :: "string list \<Rightarrow> string" where
  "list_repr ss = ''['' @ join '', '' ss @ '']''"

text \<open>
  Modelled from the spec: the base class of the torch library, which is not part of the
  source. \<^verbatim>\<open>td.Transform.__init__(cache_size)\<close> accepts the cache sizes 0 and 1 and
  rejects every other one ("Only 0 and 1 are supported"; "cache_size values other than 0 or
  1 are unsupported and must fail fast"), and \<^verbatim>\<open>t.with_cache(size)\<close> returns the
  transform itself when it has that cache size already and a copy constructed with the new
  cache size otherwise.
\<close>

definition Transform_init :: "int \<Rightarrow> error + unit" where
  "Transform_init cache_size =
     (if cache_size = 0 \<or> cache_size = 1 then Inr ()
      else Inl (ValueError ''cache_size must be 0 or 1''))"

definition with_cache :: "int \<Rightarrow> 'a Transform \<Rightarrow> error + 'a Transform" where
  "with_cache cache_size t =
     (if t_cache_size t = cache_size then Inr t
      else (case Transform_init cache_size of
              Inl e \<Rightarrow> Inl e
            | Inr u \<Rightarrow> Inr (t\<lparr>t_cache_size := cache_size\<rparr>)))"

subsection \<open>The store\<close>

type_synonym ref = nat

text \<open>One event for each call of an elementary transform, with the key and the arguments.\<close>

datatype 'a event =
    Call key "'a tensor"
  | InvCall key "'a tensor"
  | LogAbsDetJacobian key "'a tensor" "'a tensor"

text \<open>
  A TensorDict object is its fields and its batch size: \<open>cells\<close> holds the fields of every
  object and \<open>batch_size\<close> its batch size. \<open>top\<close> is the first reference that is not
  allocated yet, \<open>calls\<close> lists the transform calls made so far.
\<close>

record 'a world =
  cells :: "ref \<Rightarrow> 'a tensordict"
  batch_size :: "ref \<Rightarrow> nat list"
  top :: ref
  calls :: "'a event list"

definition invoke :: "'a event \<Rightarrow> 'a world \<Rightarrow> 'a world" where
  "invoke e w = w\<lparr>calls := calls w @ [e]\<rparr>"

text \<open>
  The check a TensorDict makes on every value stored into it
  (\<^verbatim>\<open>value.shape[:batch_dims] != batch_size\<close> raises): the leading dimensions of the value
  are the batch size. Every field of a TensorDict passes it; \<open>is_TensorDict\<close> says so of an
  object of the store.
\<close>

definition batch_dims_match :: "nat list \<Rightarrow> 'a tensor \<Rightarrow> bool" where
  "batch_dims_match bs v = (take (length bs) (shape v) = bs)"

definition is_TensorDict :: "'a world \<Rightarrow> ref \<Rightarrow> bool" where
  "is_TensorDict w x = list_all (\<lambda>(k, v). batch_dims_match (batch_size w x) v) (cells w x)"

text \<open>\<^verbatim>\<open>x.clone()\<close>: a new object with the fields and the batch size of \<open>x\<close>.\<close>

definition clone :: "ref \<Rightarrow> 'a world \<Rightarrow> ref \<times> 'a world" where
  "clone x w =
     (top w,
      w\<lparr>cells := (cells w)(top w := cells w x),
        batch_size := (batch_size w)(top w := batch_size w x),
        top := Suc (top w)\<rparr>)"

text \<open>
  \<^verbatim>\<open>c.update(d)\<close>: store the items of \<open>d\<close> into the object \<open>c\<close>, one after the other in
  the order of \<open>d\<close>, and return \<open>c\<close>. Each value is validated before it is stored: the
  first one whose leading dimensions are not the batch size of \<open>c\<close> raises
  \<^verbatim>\<open>RuntimeError\<close>, and the items before it stay stored in \<open>c\<close>.
\<close>

fun update :: "ref \<Rightarrow> 'a tensordict \<Rightarrow> 'a world \<Rightarrow> (error + ref) \<times> 'a world" where
  "update c [] w = (Inr c, w)"
| "update c ((k, v) # rest) w =
     (if \<not> batch_dims_match (batch_size w c) v then
        (Inl (RuntimeError (batch_size w c) (shape v)), w)
      else update c rest (w\<lparr>cells := (cells w)(c := setitem k v (cells w c))\<rparr>))"

subsection \<open>JointTransform\<close>

record 'a JointTransform =
  transformations :: "(key \<times> 'a Transform) list"
  cache_size :: int

text \<open>
  \<^verbatim>\<open>{key: t.with_cache(cache_size) for key, t in transformations.items()}\<close>: the items
  in order; the first exception ends the comprehension.
\<close>

fun with_cache_items ::
  "int \<Rightarrow> (key \<times> 'a Transform) list \<Rightarrow> (key \<times> 'a Transform) list
     \<Rightarrow> error + (key \<times> 'a Transform) list" where
  "with_cache_items c [] acc = Inr acc"
| "with_cache_items c ((k, t) # rest) acc =
     (case with_cache c t of
        Inl e \<Rightarrow> Inl e
      | Inr t' \<Rightarrow> with_cache_items c rest (setitem k t' acc))"

text \<open>
  \<^verbatim>\<open>__init__\<close>. The assertion comes first; its message lists the types of all values.
  Once it has passed every value is a Transform, and the list comprehension below only
  removes the constructor \<open>TransformObj\<close>.
\<close>

definition JointTransform_init ::
  "(key \<times> 'a pyobj) list \<Rightarrow> int \<Rightarrow> error + 'a JointTransform" where
  "JointTransform_init transformations0 cache_size0 =
     (if \<not> list_all isinstance_Transform (map snd transformations0) then
        Inl (AssertionError
          (''All transformations must be of type torch.distributions.Transform, but are ''
            @ list_repr (map (type_repr \<circ> type_name) (map snd transformations0)) @ ''.''))
      else
        (case (if cache_size0 \<noteq> 0
               then with_cache_items cache_size0
                      [(k, t). (k, TransformObj t) \<leftarrow> transformations0] []
               else Inr [(k, t). (k, TransformObj t) \<leftarrow> transformations0]) of
           Inl e \<Rightarrow> Inl e
         | Inr ts \<Rightarrow>
             (case Transform_init cache_size0 of
                Inl e \<Rightarrow> Inl e
              | Inr u \<Rightarrow> Inr \<lparr>transformations = ts, cache_size = cache_size0\<rparr>)))"

text \<open>
  \<^verbatim>\<open>{key: transform(x[key]) for key, transform in self.transformations.items()}\<close>,
  evaluated on the store: \<open>x\<close> is read, each call is recorded, the dictionary is built
  in \<open>acc\<close>.
\<close>

fun call_items ::
  "(key \<times> 'a Transform) list \<Rightarrow> ref \<Rightarrow> 'a tensordict \<Rightarrow> 'a world
     \<Rightarrow> (error + 'a tensordict) \<times> 'a world" where
  "call_items [] x acc w = (Inr acc, w)"
| "call_items ((k, transform) # rest) x acc w =
     (case getitem (cells w x) k of
        Inl e \<Rightarrow> (Inl e, w)
      | Inr v \<Rightarrow>
          call_items rest x (setitem k (t_call transform v) acc) (invoke (Call k v) w))"

definition JointTransform_call ::
  "'a JointTransform \<Rightarrow> ref \<Rightarrow> 'a world \<Rightarrow> (error + ref) \<times> 'a world" where
  "JointTransform_call self x w =
     (if \<not> set (keys (transformations self)) \<subseteq> set (keys (cells w x)) then
        (Inl (ValueError ''All keys in transformations must be in x.''), w)
      else
        (case clone x w of (c, w1) \<Rightarrow>
           (case call_items (transformations self) x [] w1 of
              (Inl e, w2) \<Rightarrow> (Inl e, w2)
            | (Inr d, w2) \<Rightarrow> update c d w2)))"

text \<open>\<^verbatim>\<open>{key: transform.inv(y[key]) for key, transform in self.transformations.items()}\<close>\<close>

fun inverse_items ::
  "(key \<times> 'a Transform) list \<Rightarrow> ref \<Rightarrow> 'a tensordict \<Rightarrow> 'a world
     \<Rightarrow> (error + 'a tensordict) \<times> 'a world" where
  "inverse_items [] y acc w = (Inr acc, w)"
| "inverse_items ((k, transform) # rest) y acc w =
     (case getitem (cells w y) k of
        Inl e \<Rightarrow> (Inl e, w)
      | Inr v \<Rightarrow>
          inverse_items rest y (setitem k (t_inv transform v) acc) (invoke (InvCall k v) w))"

definition JointTransform_inverse ::
  "'a JointTransform \<Rightarrow> ref \<Rightarrow> 'a world \<Rightarrow> (error + ref) \<times> 'a world" where
  "JointTransform_inverse self y w =
     (if \<not> set (keys (transformations self)) \<subseteq> set (keys (cells w y)) then
        (Inl (ValueError ''All keys in transformations must be in y.''), w)
      else
        (case clone y w of (c, w1) \<Rightarrow>
           (case inverse_items (transformations self) y [] w1 of
              (Inl e, w2) \<Rightarrow> (Inl e, w2)
            | (Inr d, w2) \<Rightarrow> update c d w2)))"

text \<open>
  The comprehension of \<^verbatim>\<open>log_abs_det_jacobian\<close> runs over the keys of \<open>x\<close>:
  \<^verbatim>\<open>self.transformations[key].log_abs_det_jacobian(x[key], y[key])\<close> if the key is
  registered, \<^verbatim>\<open>torch.ones_like(x[key])\<close> otherwise.
\<close>

fun log_abs_det_jacobian_items ::
  "(key \<times> 'a::one Transform) list \<Rightarrow> key list \<Rightarrow> ref \<Rightarrow> ref \<Rightarrow> 'a tensordict \<Rightarrow> 'a world
     \<Rightarrow> (error + 'a tensordict) \<times> 'a world" where
  "log_abs_det_jacobian_items reg [] x y acc w = (Inr acc, w)"
| "log_abs_det_jacobian_items reg (k # rest) x y acc w =
     (if k \<in> set (keys reg) then
        (case getitem reg k of
           Inl e \<Rightarrow> (Inl e, w)
         | Inr transform \<Rightarrow>
             (case getitem (cells w x) k of
                Inl e \<Rightarrow> (Inl e, w)
              | Inr xv \<Rightarrow>
                  (case getitem (cells w y) k of
                     Inl e \<Rightarrow> (Inl e, w)
                   | Inr yv \<Rightarrow>
                       log_abs_det_jacobian_items reg rest x y
                         (setitem k (t_log_abs_det_jacobian transform xv yv) acc)
                         (invoke (LogAbsDetJacobian k xv yv) w))))
      else
        (case getitem (cells w x) k of
           Inl e \<Rightarrow> (Inl e, w)
         | Inr xv \<Rightarrow>
             log_abs_det_jacobian_items reg rest x y (setitem k (ones_like xv) acc) w))"

definition JointTransform_log_abs_det_jacobian ::
  "'a::one JointTransform \<Rightarrow> ref \<Rightarrow> ref \<Rightarrow> 'a world \<Rightarrow> (error + ref) \<times> 'a world" where
  "JointTransform_log_abs_det_jacobian self x y w =
     (if set (keys (cells w x)) \<noteq> set (keys (cells w y)) then
        (Inl (ValueError ''x and y must have the same keys.''), w)
      else if \<not> set (keys (transformations self)) \<subseteq> set (keys (cells w x)) then
        (Inl (ValueError ''All keys in transformations must be in x and y.''), w)
      else
        (case clone x w of (c, w1) \<Rightarrow>
           (case log_abs_det_jacobian_items (transformations self) (keys (cells w1 x)) x y [] w1 of
              (Inl e, w2) \<Rightarrow> (Inl e, w2)
            | (Inr d, w2) \<Rightarrow> update c d w2)))"

text \<open>The properties \<^verbatim>\<open>bijective\<close>, \<^verbatim>\<open>domain\<close> and \<^verbatim>\<open>codomain\<close>.\<close>

definition JointTransform_bijective :: "'a JointTransform \<Rightarrow> bool" where
  "JointTransform_bijective self = list_all t_bijective (map snd (transformations self))"

definition JointTransform_domain :: "'a JointTransform \<Rightarrow> (key \<times> constraint) list" where
  "JointTransform_domain self = map (\<lambda>(k, t). (k, t_domain t)) (transformations self)"

definition JointTransform_codomain :: "'a JointTransform \<Rightarrow> (key \<times> constraint) list" where
  "JointTransform_codomain self = map (\<lambda>(k, t). (k, t_codomain t)) (transformations self)"

subsection \<open>Example inputs\<close>

text \<open>
  Concrete transforms and stores at which the theorems below are instantiated. Tensors of
  real numbers stand for the idealised arithmetic; the exponential transform maps each
  element \<open>v\<close> to \<open>exp v\<close>, its inverse is the logarithm and its log-abs-det-Jacobian is
  the input itself.
\<close>

definition tmap :: "('a \<Rightarrow> 'a) \<Rightarrow> 'a tensor \<Rightarrow> 'a tensor" where
  "tmap f t = Tensor (shape t) (map f (elems t))"

definition ExpTransform :: "real Transform" where
  "ExpTransform =
     \<lparr>t_name = ''torch.distributions.transforms.ExpTransform'',
      t_call = tmap exp, t_inv = tmap ln,
      t_log_abs_det_jacobian = (\<lambda>x y. x),
      t_bijective = True, t_domain = ''Real()'', t_codomain = ''GreaterThan(lower_bound=0.0)'',
      t_cache_size = 0\<rparr>"

definition AbsTransform :: "real Transform" where
  "AbsTransform =
     \<lparr>t_name = ''torch.distributions.transforms.AbsTransform'',
      t_call = tmap abs, t_inv = (\<lambda>y. y),
      t_log_abs_det_jacobian = (\<lambda>x y. tmap (\<lambda>v. 0) x),
      t_bijective = False, t_domain = ''Real()'', t_codomain = ''GreaterThan(lower_bound=0.0)'',
      t_cache_size = 0\<rparr>"

definition example_jt :: "real JointTransform" where
  "example_jt = \<lparr>transformations = [(''a'', ExpTransform)], cache_size = 0\<rparr>"

definition example_store :: "real world" where
  "example_store =
     \<lparr>cells = (\<lambda>r. [])(0 := [(''a'', Tensor [] [0]), (''b'', Tensor [] [5])]),
      batch_size = (\<lambda>r. []), top = 1, calls = []\<rparr>"

definition example_jt_z :: "real JointTransform" where
  "example_jt_z = \<lparr>transformations = [(''z'', ExpTransform)], cache_size = 0\<rparr>"

definition example_store_fwd :: "real world" where
  "example_store_fwd = snd (JointTransform_call example_jt 0 example_store)"

definition example_store_xy :: "real world" where
  "example_store_xy =
     \<lparr>cells = (\<lambda>r. [])(0 := [(''a'', Tensor [] [0]), (''b'', Tensor [] [5])],
                        1 := [(''a'', Tensor [] [1])]),
      batch_size = (\<lambda>r. []), top = 2, calls = []\<rparr>"

definition example_jt_empty :: "real JointTransform" where
  "example_jt_empty = \<lparr>transformations = [], cache_size = 0\<rparr>"

text \<open>
  A container with batch size \<open>[3]\<close>: the field \<open>a\<close> has shape \<open>[3, 2]\<close>, the field \<open>b\<close>
  shape \<open>[3]\<close>. \<open>example_batch_fwd\<close> is the store after \<^verbatim>\<open>_call\<close> with the exponential
  transform on \<open>a\<close>.
\<close>

definition example_batch :: "real world" where
  "example_batch =
     \<lparr>cells = (\<lambda>r. [])(0 := [(''a'', Tensor [3, 2] [0, 0, 0, 0, 0, 0]),
                              (''b'', Tensor [3] [5, 5, 5])]),
      batch_size = (\<lambda>r. [])(0 := [3]), top = 1, calls = []\<rparr>"

definition example_batch_fwd :: "real world" where
  "example_batch_fwd = snd (JointTransform_call example_jt 0 example_batch)"

text \<open>
  A transform that a user of the library can write: \<^verbatim>\<open>_call\<close> and \<^verbatim>\<open>_inverse\<close> are both
  \<^verbatim>\<open>x.reshape(x.shape[::-1])\<close>, which keeps the elements in their order and reverses the
  shape. It is an involution on all tensors, hence a two-sided inverse pair, and it
  preserves volume: its log-abs-det-Jacobian is the 0-dimensional zero, as torch's own
  \<^verbatim>\<open>ReshapeTransform\<close> returns it for a tensor without batch dimensions.
\<close>

definition ReverseShapeTransform :: "real Transform" where
  "ReverseShapeTransform =
     \<lparr>t_name = ''ReverseShapeTransform'',
      t_call = (\<lambda>x. Tensor (rev (shape x)) (elems x)),
      t_inv = (\<lambda>y. Tensor (rev (shape y)) (elems y)),
      t_log_abs_det_jacobian = (\<lambda>x y. Tensor [] [0]),
      t_bijective = True, t_domain = ''Real()'', t_codomain = ''Real()'',
      t_cache_size = 0\<rparr>"

definition example_jt_reverse :: "real JointTransform" where
  "example_jt_reverse = \<lparr>transformations = [(''a'', ReverseShapeTransform)], cache_size = 0\<rparr>"

section \<open>Auxiliary lemmas\<close>

subsection \<open>Dictionaries\<close>

lemma map_of_fold_setitem:
  "distinct (map fst d) \<Longrightarrow>
   map_of (fold (\<lambda>(k, v). setitem k v) d al) k =
     (case map_of d k of Some v \<Rightarrow> Some v | None \<Rightarrow> map_of al k)"
proof (induction d arbitrary: al)
  case Nil
  then show ?case by simp
next
  case (Cons p d)
  obtain k0 v0 where p: "p = (k0, v0)" by (cases p)
  from Cons.prems p have nin: "map_of d k0 = None" and dist: "distinct (map fst d)"
    by (auto simp: map_of_eq_None_iff)
  show ?case
    using Cons.IH [OF dist, of "setitem k0 v0 al"] nin
    by (simp add: p setitem_def update_conv' split: option.splits)
qed

lemma keys_setitem_mem:
  "k \<in> set (keys al) \<Longrightarrow> keys (setitem k v al) = keys al"
  by (simp add: keys_def setitem_def update_keys)

lemma keys_fold_setitem:
  "set (keys d) \<subseteq> set (keys al) \<Longrightarrow> keys (fold (\<lambda>(k, v). setitem k v) d al) = keys al"
proof (induction d arbitrary: al)
  case Nil
  then show ?case by simp
next
  case (Cons p d)
  obtain k0 v0 where p: "p = (k0, v0)" by (cases p)
  from Cons.prems p have k0: "k0 \<in> set (keys al)" and rest: "set (keys d) \<subseteq> set (keys al)"
    by (auto simp: keys_def)
  show ?case
    using Cons.IH [of "setitem k0 v0 al"] k0 rest
    by (simp add: p keys_setitem_mem)
qed

lemma getitem_Inr_iff: "getitem d k = Inr v \<longleftrightarrow> map_of d k = Some v"
  by (simp add: getitem_def split: option.splits)

lemma getitem_mem:
  "k \<in> set (keys d) \<Longrightarrow> \<exists>v. getitem d k = Inr v \<and> map_of d k = Some v"
proof -
  assume "k \<in> set (keys d)"
  then have "map_of d k \<noteq> None"
    by (simp add: keys_def map_of_eq_None_iff)
  then show ?thesis
    by (auto simp: getitem_def)
qed

lemma distinct_keys_setitem: "distinct (keys al) \<Longrightarrow> distinct (keys (setitem k v al))"
  by (simp add: keys_def setitem_def distinct_update)

lemma set_keys_setitem: "set (keys (setitem k v al)) = insert k (set (keys al))"
  using dom_update [of k v al] by (simp add: keys_def setitem_def)

lemma map_of_setitem: "map_of (setitem k v al) = (map_of al)(k \<mapsto> v)"
  by (simp add: setitem_def update_conv')

lemma set_setitem: "set (setitem k v al) \<subseteq> insert (k, v) (set al)"
  by (induction al) (auto simp: setitem_def)

subsection \<open>The store\<close>

lemma batch_dims_match_ones_like: "batch_dims_match bs (ones_like v) = batch_dims_match bs v"
  by (simp add: batch_dims_match_def ones_like_def)

lemma update_ok:
  "list_all (\<lambda>(k, v). batch_dims_match (batch_size w c) v) d \<Longrightarrow>
   update c d w = (Inr c, w\<lparr>cells := (cells w)(c := fold (\<lambda>(k, v). setitem k v) d (cells w c))\<rparr>)"
proof (induction d arbitrary: w)
  case Nil
  then show ?case by simp
next
  case (Cons p d)
  obtain k v where p: "p = (k, v)" by (cases p)
  define w' where "w' = w\<lparr>cells := (cells w)(c := setitem k v (cells w c))\<rparr>"
  from Cons.prems p have ok: "batch_dims_match (batch_size w c) v"
    and rest: "list_all (\<lambda>(k, v). batch_dims_match (batch_size w' c) v) d"
    by (simp_all add: w'_def)
  from Cons.IH [OF rest] ok show ?case
    by (simp add: p w'_def cong: if_cong)
qed

lemma update_frame:
  "batch_size (snd (update c d w)) = batch_size w
   \<and> top (snd (update c d w)) = top w
   \<and> calls (snd (update c d w)) = calls w
   \<and> (r \<noteq> c \<longrightarrow> cells (snd (update c d w)) r = cells w r)"
proof (induction d arbitrary: w)
  case Nil
  then show ?case by simp
next
  case (Cons p d)
  obtain k v where p: "p = (k, v)" by (cases p)
  show ?case
    by (simp add: p Cons.IH)
qed

subsection \<open>The forward comprehension\<close>

lemma call_items_frame:
  "cells (snd (call_items reg x acc w)) = cells w \<and> top (snd (call_items reg x acc w)) = top w
   \<and> batch_size (snd (call_items reg x acc w)) = batch_size w"
proof (induction reg arbitrary: acc w)
  case Nil
  then show ?case by simp
next
  case (Cons p reg)
  obtain k t where p: "p = (k, t)" by (cases p)
  show ?case
    by (simp add: p Cons.IH invoke_def split: sum.splits)
qed

lemma call_items_ok:
  "set (keys reg) \<subseteq> set (keys (cells w x)) \<Longrightarrow> \<exists>d. fst (call_items reg x acc w) = Inr d"
proof (induction reg arbitrary: acc w)
  case Nil
  then show ?case by simp
next
  case (Cons p reg)
  obtain k t where p: "p = (k, t)" by (cases p)
  from Cons.prems p have k: "k \<in> set (keys (cells w x))"
    and rest: "set (keys reg) \<subseteq> set (keys (cells w x))"
    by (auto simp: keys_def)
  from getitem_mem [OF k] obtain v where v: "getitem (cells w x) k = Inr v" by blast
  have "set (keys reg) \<subseteq> set (keys (cells (invoke (Call k v) w) x))"
    using rest by (simp add: invoke_def)
  from Cons.IH [OF this] show ?case
    by (simp add: p v)
qed

lemma call_items_map_of:
  "call_items reg x acc w = (Inr d, w') \<Longrightarrow> distinct (keys reg) \<Longrightarrow>
   map_of d k =
     (case map_of reg k of
        None \<Rightarrow> map_of acc k
      | Some t \<Rightarrow> map_option (t_call t) (map_of (cells w x) k))"
proof (induction reg arbitrary: acc w)
  case Nil
  then show ?case by simp
next
  case (Cons p reg)
  obtain k0 t0 where p: "p = (k0, t0)" by (cases p)
  from Cons.prems(1) p obtain v where v: "getitem (cells w x) k0 = Inr v"
    and step: "call_items reg x (setitem k0 (t_call t0 v) acc) (invoke (Call k0 v) w) = (Inr d, w')"
    by (auto split: sum.splits)
  from Cons.prems(2) p have dist: "distinct (keys reg)" and nin: "map_of reg k0 = None"
    by (auto simp: keys_def map_of_eq_None_iff)
  from v have xv: "map_of (cells w x) k0 = Some v"
    by (simp add: getitem_Inr_iff)
  show ?case
    using Cons.IH [OF step dist] nin xv
    by (simp add: p map_of_setitem invoke_def split: option.splits)
qed

lemma call_items_keys:
  "call_items reg x acc w = (Inr d, w') \<Longrightarrow> set (keys d) = set (keys acc) \<union> set (keys reg)"
proof (induction reg arbitrary: acc w)
  case Nil
  then show ?case by (simp add: keys_def)
next
  case (Cons p reg)
  obtain k0 t0 where p: "p = (k0, t0)" by (cases p)
  from Cons.prems(1) p obtain v where
    step: "call_items reg x (setitem k0 (t_call t0 v) acc) (invoke (Call k0 v) w) = (Inr d, w')"
    by (auto split: sum.splits)
  from Cons.IH [OF step] have "set (keys d) = insert k0 (set (keys acc)) \<union> set (keys reg)"
    by (simp add: set_keys_setitem)
  then show ?case
    by (auto simp: p keys_def)
qed

lemma call_items_distinct:
  "call_items reg x acc w = (Inr d, w') \<Longrightarrow> distinct (keys acc) \<Longrightarrow> distinct (keys d)"
proof (induction reg arbitrary: acc w)
  case Nil
  then show ?case by simp
next
  case (Cons p reg)
  obtain k0 t0 where p: "p = (k0, t0)" by (cases p)
  from Cons.prems(1) p obtain v where
    step: "call_items reg x (setitem k0 (t_call t0 v) acc) (invoke (Call k0 v) w) = (Inr d, w')"
    by (auto split: sum.splits)
  show ?case
    using Cons.IH [OF step] Cons.prems(2) by (simp add: distinct_keys_setitem)
qed

lemma call_items_values:
  "call_items reg x acc w = (Inr d, w') \<Longrightarrow> (k, u) \<in> set d \<Longrightarrow>
   (k, u) \<in> set acc
   \<or> (\<exists>t v. (k, t) \<in> set reg \<and> map_of (cells w x) k = Some v \<and> u = t_call t v)"
proof (induction reg arbitrary: acc w)
  case Nil
  then show ?case by simp
next
  case (Cons p reg)
  obtain k0 t0 where p: "p = (k0, t0)" by (cases p)
  from Cons.prems(1) p obtain v where v: "getitem (cells w x) k0 = Inr v"
    and step: "call_items reg x (setitem k0 (t_call t0 v) acc) (invoke (Call k0 v) w) = (Inr d, w')"
    by (auto split: sum.splits)
  from v have xv: "map_of (cells w x) k0 = Some v"
    by (simp add: getitem_Inr_iff)
  from Cons.IH [OF step Cons.prems(2)] set_setitem [of k0 "t_call t0 v" acc] xv show ?case
    by (auto simp: p invoke_def)
qed

lemma JointTransform_call_success:
  assumes sub: "set (keys (transformations self)) \<subseteq> set (keys (cells w x))"
    and dist: "distinct (keys (transformations self))"
    and conf: "\<forall>(k, t) \<in> set (transformations self). \<forall>v. map_of (cells w x) k = Some v
                 \<longrightarrow> batch_dims_match (batch_size w x) (t_call t v)"
  shows "\<exists>w'. JointTransform_call self x w = (Inr (top w), w')
          \<and> top w' = Suc (top w)
          \<and> (\<forall>r. r \<noteq> top w \<longrightarrow> cells w' r = cells w r)
          \<and> batch_size w' (top w) = batch_size w x
          \<and> keys (cells w' (top w)) = keys (cells w x)
          \<and> (\<forall>k. map_of (cells w' (top w)) k =
                (case map_of (transformations self) k of
                   None \<Rightarrow> map_of (cells w x) k
                 | Some t \<Rightarrow> map_option (t_call t) (map_of (cells w x) k)))"
proof -
  define reg where "reg = transformations self"
  define w1 where "w1 = snd (clone x w)"
  have w1: "clone x w = (top w, w1)"
    by (simp add: w1_def clone_def)
  have c1: "cells w1 = (cells w)(top w := cells w x)" and t1: "top w1 = Suc (top w)"
    and b1: "batch_size w1 = (batch_size w)(top w := batch_size w x)"
    by (simp_all add: w1_def clone_def)
  have x1: "cells w1 x = cells w x"
    by (simp add: c1)
  from sub have "set (keys reg) \<subseteq> set (keys (cells w1 x))"
    by (simp add: x1 reg_def)
  from call_items_ok [OF this, of "[]"] obtain d w2
    where run: "call_items reg x [] w1 = (Inr d, w2)"
    by (metis prod.collapse)
  from call_items_frame [of reg x "[]" w1] run
  have c2: "cells w2 = cells w1" and t2: "top w2 = top w1"
    and b2: "batch_size w2 = batch_size w1"
    by simp_all
  have dd: "distinct (map fst d)"
    using call_items_distinct [OF run] by (simp add: keys_def)
  have kd: "set (keys d) \<subseteq> set (keys (cells w x))"
    using call_items_keys [OF run] sub by (simp add: keys_def reg_def)
  have md: "map_of d k =
      (case map_of reg k of None \<Rightarrow> None
       | Some t \<Rightarrow> map_option (t_call t) (map_of (cells w x) k))" for k
    using call_items_map_of [OF run, of k] dist by (simp add: reg_def x1 split: option.splits)
  define res where "res = fold (\<lambda>(k, v). setitem k v) d (cells w x)"
  define w3 where "w3 = w2\<lparr>cells := (cells w2)(top w := res)\<rparr>"
  have "list_all (\<lambda>(k, v). batch_dims_match (batch_size w2 (top w)) v) d"
    unfolding list_all_iff
  proof (clarify)
    fix k u
    assume "(k, u) \<in> set d"
    from call_items_values [OF run this] obtain t v where "(k, t) \<in> set reg"
      and "map_of (cells w x) k = Some v" and "u = t_call t v"
      by (auto simp: x1)
    with conf show "batch_dims_match (batch_size w2 (top w)) u"
      by (auto simp: reg_def b2 b1)
  qed
  from update_ok [OF this] have upd: "update (top w) d w2 = (Inr (top w), w3)"
    by (simp add: w3_def res_def c2 c1)
  have result: "JointTransform_call self x w = (Inr (top w), w3)"
    using sub by (simp add: JointTransform_call_def w1 run [unfolded reg_def] upd)
  have kres: "keys res = keys (cells w x)"
    unfolding res_def by (rule keys_fold_setitem [OF kd])
  have mres: "map_of res k =
      (case map_of reg k of None \<Rightarrow> map_of (cells w x) k
       | Some t \<Rightarrow> map_option (t_call t) (map_of (cells w x) k))" for k
  proof (cases "map_of reg k")
    case None
    then show ?thesis
      by (simp add: res_def map_of_fold_setitem [OF dd] md)
  next
    case (Some t)
    then have "k \<in> set (keys reg)"
      by (auto simp: keys_def dest: map_of_SomeD intro: rev_image_eqI)
    with sub have "k \<in> set (keys (cells w x))"
      by (auto simp: reg_def)
    from getitem_mem [OF this] obtain v where "map_of (cells w x) k = Some v"
      by blast
    with Some show ?thesis
      by (simp add: res_def map_of_fold_setitem [OF dd] md)
  qed
  have "top w3 = Suc (top w)"
    by (simp add: w3_def t2 t1)
  moreover have "\<forall>r. r \<noteq> top w \<longrightarrow> cells w3 r = cells w r"
    by (simp add: w3_def c2 c1)
  moreover have "batch_size w3 (top w) = batch_size w x"
    by (simp add: w3_def b2 b1)
  moreover have "keys (cells w3 (top w)) = keys (cells w x)"
    by (simp add: w3_def kres)
  moreover have "\<forall>k. map_of (cells w3 (top w)) k =
      (case map_of (transformations self) k of None \<Rightarrow> map_of (cells w x) k
       | Some t \<Rightarrow> map_option (t_call t) (map_of (cells w x) k))"
    using mres by (simp add: w3_def reg_def)
  ultimately show ?thesis
    using result by blast
qed

subsection \<open>The inverse comprehension\<close>

lemma inverse_items_frame:
  "cells (snd (inverse_items reg x acc w)) = cells w \<and> top (snd (inverse_items reg x acc w)) = top w
   \<and> batch_size (snd (inverse_items reg x acc w)) = batch_size w"
proof (induction reg arbitrary: acc w)
  case Nil
  then show ?case by simp
next
  case (Cons p reg)
  obtain k t where p: "p = (k, t)" by (cases p)
  show ?case
    by (simp add: p Cons.IH invoke_def split: sum.splits)
qed

lemma inverse_items_ok:
  "set (keys reg) \<subseteq> set (keys (cells w x)) \<Longrightarrow> \<exists>d. fst (inverse_items reg x acc w) = Inr d"
proof (induction reg arbitrary: acc w)
  case Nil
  then show ?case by simp
next
  case (Cons p reg)
  obtain k t where p: "p = (k, t)" by (cases p)
  from Cons.prems p have k: "k \<in> set (keys (cells w x))"
    and rest: "set (keys reg) \<subseteq> set (keys (cells w x))"
    by (auto simp: keys_def)
  from getitem_mem [OF k] obtain v where v: "getitem (cells w x) k = Inr v" by blast
  have "set (keys reg) \<subseteq> set (keys (cells (invoke (InvCall k v) w) x))"
    using rest by (simp add: invoke_def)
  from Cons.IH [OF this] show ?case
    by (simp add: p v)
qed

lemma inverse_items_map_of:
  "inverse_items reg x acc w = (Inr d, w') \<Longrightarrow> distinct (keys reg) \<Longrightarrow>
   map_of d k =
     (case map_of reg k of
        None \<Rightarrow> map_of acc k
      | Some t \<Rightarrow> map_option (t_inv t) (map_of (cells w x) k))"
proof (induction reg arbitrary: acc w)
  case Nil
  then show ?case by simp
next
  case (Cons p reg)
  obtain k0 t0 where p: "p = (k0, t0)" by (cases p)
  from Cons.prems(1) p obtain v where v: "getitem (cells w x) k0 = Inr v"
    and step: "inverse_items reg x (setitem k0 (t_inv t0 v) acc) (invoke (InvCall k0 v) w) = (Inr d, w')"
    by (auto split: sum.splits)
  from Cons.prems(2) p have dist: "distinct (keys reg)" and nin: "map_of reg k0 = None"
    by (auto simp: keys_def map_of_eq_None_iff)
  from v have xv: "map_of (cells w x) k0 = Some v"
    by (simp add: getitem_Inr_iff)
  show ?case
    using Cons.IH [OF step dist] nin xv
    by (simp add: p map_of_setitem invoke_def split: option.splits)
qed

lemma inverse_items_keys:
  "inverse_items reg x acc w = (Inr d, w') \<Longrightarrow> set (keys d) = set (keys acc) \<union> set (keys reg)"
proof (induction reg arbitrary: acc w)
  case Nil
  then show ?case by (simp add: keys_def)
next
  case (Cons p reg)
  obtain k0 t0 where p: "p = (k0, t0)" by (cases p)
  from Cons.prems(1) p obtain v where
    step: "inverse_items reg x (setitem k0 (t_inv t0 v) acc) (invoke (InvCall k0 v) w) = (Inr d, w')"
    by (auto split: sum.splits)
  from Cons.IH [OF step] have "set (keys d) = insert k0 (set (keys acc)) \<union> set (keys reg)"
    by (simp add: set_keys_setitem)
  then show ?case
    by (auto simp: p keys_def)
qed

lemma inverse_items_distinct:
  "inverse_items reg x acc w = (Inr d, w') \<Longrightarrow> distinct (keys acc) \<Longrightarrow> distinct (keys d)"
proof (induction reg arbitrary: acc w)
  case Nil
  then show ?case by simp
next
  case (Cons p reg)
  obtain k0 t0 where p: "p = (k0, t0)" by (cases p)
  from Cons.prems(1) p obtain v where
    step: "inverse_items reg x (setitem k0 (t_inv t0 v) acc) (invoke (InvCall k0 v) w) = (Inr d, w')"
    by (auto split: sum.splits)
  show ?case
    using Cons.IH [OF step] Cons.prems(2) by (simp add: distinct_keys_setitem)
qed

lemma inverse_items_values:
  "inverse_items reg x acc w = (Inr d, w') \<Longrightarrow> (k, u) \<in> set d \<Longrightarrow>
   (k, u) \<in> set acc
   \<or> (\<exists>t v. (k, t) \<in> set reg \<and> map_of (cells w x) k = Some v \<and> u = t_inv t v)"
proof (induction reg arbitrary: acc w)
  case Nil
  then show ?case by simp
next
  case (Cons p reg)
  obtain k0 t0 where p: "p = (k0, t0)" by (cases p)
  from Cons.prems(1) p obtain v where v: "getitem (cells w x) k0 = Inr v"
    and step: "inverse_items reg x (setitem k0 (t_inv t0 v) acc) (invoke (InvCall k0 v) w) = (Inr d, w')"
    by (auto split: sum.splits)
  from v have xv: "map_of (cells w x) k0 = Some v"
    by (simp add: getitem_Inr_iff)
  from Cons.IH [OF step Cons.prems(2)] set_setitem [of k0 "t_inv t0 v" acc] xv show ?case
    by (auto simp: p invoke_def)
qed

lemma JointTransform_inverse_success:
  assumes sub: "set (keys (transformations self)) \<subseteq> set (keys (cells w x))"
    and dist: "distinct (keys (transformations self))"
    and conf: "\<forall>(k, t) \<in> set (transformations self). \<forall>v. map_of (cells w x) k = Some v
                 \<longrightarrow> batch_dims_match (batch_size w x) (t_inv t v)"
  shows "\<exists>w'. JointTransform_inverse self x w = (Inr (top w), w')
          \<and> top w' = Suc (top w)
          \<and> (\<forall>r. r \<noteq> top w \<longrightarrow> cells w' r = cells w r)
          \<and> batch_size w' (top w) = batch_size w x
          \<and> keys (cells w' (top w)) = keys (cells w x)
          \<and> (\<forall>k. map_of (cells w' (top w)) k =
                (case map_of (transformations self) k of
                   None \<Rightarrow> map_of (cells w x) k
                 | Some t \<Rightarrow> map_option (t_inv t) (map_of (cells w x) k)))"
proof -
  define reg where "reg = transformations self"
  define w1 where "w1 = snd (clone x w)"
  have w1: "clone x w = (top w, w1)"
    by (simp add: w1_def clone_def)
  have c1: "cells w1 = (cells w)(top w := cells w x)" and t1: "top w1 = Suc (top w)"
    and b1: "batch_size w1 = (batch_size w)(top w := batch_size w x)"
    by (simp_all add: w1_def clone_def)
  have x1: "cells w1 x = cells w x"
    by (simp add: c1)
  from sub have "set (keys reg) \<subseteq> set (keys (cells w1 x))"
    by (simp add: x1 reg_def)
  from inverse_items_ok [OF this, of "[]"] obtain d w2
    where run: "inverse_items reg x [] w1 = (Inr d, w2)"
    by (metis prod.collapse)
  from inverse_items_frame [of reg x "[]" w1] run
  have c2: "cells w2 = cells w1" and t2: "top w2 = top w1"
    and b2: "batch_size w2 = batch_size w1"
    by simp_all
  have dd: "distinct (map fst d)"
    using inverse_items_distinct [OF run] by (simp add: keys_def)
  have kd: "set (keys d) \<subseteq> set (keys (cells w x))"
    using inverse_items_keys [OF run] sub by (simp add: keys_def reg_def)
  have md: "map_of d k =
      (case map_of reg k of None \<Rightarrow> None
       | Some t \<Rightarrow> map_option (t_inv t) (map_of (cells w x) k))" for k
    using inverse_items_map_of [OF run, of k] dist by (simp add: reg_def x1 split: option.splits)
  define res where "res = fold (\<lambda>(k, v). setitem k v) d (cells w x)"
  define w3 where "w3 = w2\<lparr>cells := (cells w2)(top w := res)\<rparr>"
  have "list_all (\<lambda>(k, v). batch_dims_match (batch_size w2 (top w)) v) d"
    unfolding list_all_iff
  proof (clarify)
    fix k u
    assume "(k, u) \<in> set d"
    from inverse_items_values [OF run this] obtain t v where "(k, t) \<in> set reg"
      and "map_of (cells w x) k = Some v" and "u = t_inv t v"
      by (auto simp: x1)
    with conf show "batch_dims_match (batch_size w2 (top w)) u"
      by (auto simp: reg_def b2 b1)
  qed
  from update_ok [OF this] have upd: "update (top w) d w2 = (Inr (top w), w3)"
    by (simp add: w3_def res_def c2 c1)
  have result: "JointTransform_inverse self x w = (Inr (top w), w3)"
    using sub by (simp add: JointTransform_inverse_def w1 run [unfolded reg_def] upd)
  have kres: "keys res = keys (cells w x)"
    unfolding res_def by (rule keys_fold_setitem [OF kd])
  have mres: "map_of res k =
      (case map_of reg k of None \<Rightarrow> map_of (cells w x) k
       | Some t \<Rightarrow> map_option (t_inv t) (map_of (cells w x) k))" for k
  proof (cases "map_of reg k")
    case None
    then show ?thesis
      by (simp add: res_def map_of_fold_setitem [OF dd] md)
  next
    case (Some t)
    then have "k \<in> set (keys reg)"
      by (auto simp: keys_def dest: map_of_SomeD intro: rev_image_eqI)
    with sub have "k \<in> set (keys (cells w x))"
      by (auto simp: reg_def)
    from getitem_mem [OF this] obtain v where "map_of (cells w x) k = Some v"
      by blast
    with Some show ?thesis
      by (simp add: res_def map_of_fold_setitem [OF dd] md)
  qed
  have "top w3 = Suc (top w)"
    by (simp add: w3_def t2 t1)
  moreover have "\<forall>r. r \<noteq> top w \<longrightarrow> cells w3 r = cells w r"
    by (simp add: w3_def c2 c1)
  moreover have "batch_size w3 (top w) = batch_size w x"
    by (simp add: w3_def b2 b1)
  moreover have "keys (cells w3 (top w)) = keys (cells w x)"
    by (simp add: w3_def kres)
  moreover have "\<forall>k. map_of (cells w3 (top w)) k =
      (case map_of (transformations self) k of None \<Rightarrow> map_of (cells w x) k
       | Some t \<Rightarrow> map_option (t_inv t) (map_of (cells w x) k))"
    using mres by (simp add: w3_def reg_def)
  ultimately show ?thesis
    using result by blast
qed

subsection \<open>Lookups\<close>

lemma getitem_eq_iff: "getitem d k = getitem d' k \<longleftrightarrow> map_of d k = map_of d' k"
  by (simp add: getitem_def split: option.splits)

lemma map_of_registered:
  "map_of reg k = Some t \<Longrightarrow> k \<in> set (keys reg) \<and> (k, t) \<in> set reg"
  by (auto simp: keys_def dest: map_of_SomeD intro: rev_image_eqI)

lemma map_of_unregistered: "k \<notin> set (keys reg) \<Longrightarrow> map_of reg k = None"
  by (simp add: keys_def map_of_eq_None_iff)

lemma example_forward:
  "JointTransform_call example_jt 0 example_store =
     (Inr 1,
      \<lparr>cells = (\<lambda>r. [])(0 := [(''a'', Tensor [] [0]), (''b'', Tensor [] [5])],
                         1 := [(''a'', Tensor [] [1]), (''b'', Tensor [] [5])]),
       batch_size = (\<lambda>r. []), top = 2, calls = [Call ''a'' (Tensor [] [0])]\<rparr>)"
  by (simp add: JointTransform_call_def example_jt_def example_store_def clone_def
      batch_dims_match_def getitem_def setitem_def invoke_def keys_def ExpTransform_def tmap_def
      fun_upd_idem_iff)

lemma tmap_ln_exp: "tmap ln (tmap exp v) = (v :: real tensor)"
  by (cases v) (simp add: tmap_def o_def)

subsection \<open>The comprehension of the Jacobian\<close>

lemma cells_invoke: "cells (invoke e w) = cells w"
  by (simp add: invoke_def)

lemma log_abs_det_jacobian_items_frame:
  "cells (snd (log_abs_det_jacobian_items reg ks x y acc w)) = cells w
   \<and> top (snd (log_abs_det_jacobian_items reg ks x y acc w)) = top w
   \<and> batch_size (snd (log_abs_det_jacobian_items reg ks x y acc w)) = batch_size w"
proof (induction ks arbitrary: acc w)
  case Nil
  then show ?case by simp
next
  case (Cons k ks)
  show ?case
    by (simp add: Cons.IH invoke_def split: sum.splits)
qed

lemma log_abs_det_jacobian_items_ok:
  "set ks \<subseteq> set (keys (cells w x)) \<Longrightarrow> set ks \<subseteq> set (keys (cells w y)) \<Longrightarrow>
   \<exists>d. fst (log_abs_det_jacobian_items reg ks x y acc w) = Inr d"
proof (induction ks arbitrary: acc w)
  case Nil
  then show ?case by simp
next
  case (Cons k ks)
  from Cons.prems have kx: "k \<in> set (keys (cells w x))" and ky: "k \<in> set (keys (cells w y))"
    and rx: "set ks \<subseteq> set (keys (cells w x))" and ry: "set ks \<subseteq> set (keys (cells w y))"
    by simp_all
  from getitem_mem [OF kx] obtain xv where xv: "getitem (cells w x) k = Inr xv" by blast
  from getitem_mem [OF ky] obtain yv where yv: "getitem (cells w y) k = Inr yv" by blast
  show ?case
  proof (cases "k \<in> set (keys reg)")
    case True
    from getitem_mem [OF True] obtain t where t: "getitem reg k = Inr t" by blast
    have "set ks \<subseteq> set (keys (cells (invoke (LogAbsDetJacobian k xv yv) w) x))"
      and "set ks \<subseteq> set (keys (cells (invoke (LogAbsDetJacobian k xv yv) w) y))"
      using rx ry by (simp_all add: invoke_def)
    from Cons.IH [OF this] show ?thesis
      by (simp add: True t xv yv)
  next
    case False
    from Cons.IH [OF rx ry] show ?thesis
      by (simp add: False xv)
  qed
qed

lemma log_abs_det_jacobian_items_map_of:
  "log_abs_det_jacobian_items reg ks x y acc w = (Inr d, w') \<Longrightarrow>
   map_of d k =
     (if k \<in> set ks then
        (case map_of reg k of
           None \<Rightarrow> map_option ones_like (map_of (cells w x) k)
         | Some t \<Rightarrow>
             (case map_of (cells w x) k of
                None \<Rightarrow> None
              | Some xv \<Rightarrow> map_option (t_log_abs_det_jacobian t xv) (map_of (cells w y) k)))
      else map_of acc k)"
proof (induction ks arbitrary: acc w)
  case Nil
  then show ?case by simp
next
  case (Cons k0 ks)
  show ?case
  proof (cases "k0 \<in> set (keys reg)")
    case True
    from Cons.prems True obtain t xv yv where t: "getitem reg k0 = Inr t"
      and xv: "getitem (cells w x) k0 = Inr xv" and yv: "getitem (cells w y) k0 = Inr yv"
      and step: "log_abs_det_jacobian_items reg ks x y
                   (setitem k0 (t_log_abs_det_jacobian t xv yv) acc)
                   (invoke (LogAbsDetJacobian k0 xv yv) w) = (Inr d, w')"
      by (auto split: sum.splits)
    from t xv yv have "map_of reg k0 = Some t" "map_of (cells w x) k0 = Some xv"
      "map_of (cells w y) k0 = Some yv"
      by (simp_all add: getitem_Inr_iff)
    then show ?thesis
      using Cons.IH [OF step, unfolded cells_invoke] by (simp add: map_of_setitem)
  next
    case False
    from Cons.prems False obtain xv where xv: "getitem (cells w x) k0 = Inr xv"
      and step: "log_abs_det_jacobian_items reg ks x y (setitem k0 (ones_like xv) acc) w
                   = (Inr d, w')"
      by (auto split: sum.splits)
    from xv have "map_of (cells w x) k0 = Some xv"
      by (simp add: getitem_Inr_iff)
    then show ?thesis
      using Cons.IH [OF step] map_of_unregistered [OF False]
      by (simp add: map_of_setitem)
  qed
qed

lemma log_abs_det_jacobian_items_keys:
  "log_abs_det_jacobian_items reg ks x y acc w = (Inr d, w') \<Longrightarrow>
   set (keys d) = set (keys acc) \<union> set ks"
proof (induction ks arbitrary: acc w)
  case Nil
  then show ?case by simp
next
  case (Cons k0 ks)
  from Cons.prems obtain v w0 where
    step: "log_abs_det_jacobian_items reg ks x y (setitem k0 v acc) w0 = (Inr d, w')"
    by (auto split: sum.splits if_splits)
  from Cons.IH [OF step] show ?case
    by (simp add: set_keys_setitem)
qed

lemma log_abs_det_jacobian_items_distinct:
  "log_abs_det_jacobian_items reg ks x y acc w = (Inr d, w') \<Longrightarrow>
   distinct (keys acc) \<Longrightarrow> distinct (keys d)"
proof (induction ks arbitrary: acc w)
  case Nil
  then show ?case by simp
next
  case (Cons k0 ks)
  from Cons.prems(1) obtain v w0 where
    step: "log_abs_det_jacobian_items reg ks x y (setitem k0 v acc) w0 = (Inr d, w')"
    by (auto split: sum.splits if_splits)
  from Cons.IH [OF step] Cons.prems(2) show ?case
    by (simp add: distinct_keys_setitem)
qed

lemma log_abs_det_jacobian_items_values:
  "log_abs_det_jacobian_items reg ks x y acc w = (Inr d, w') \<Longrightarrow> (k, u) \<in> set d \<Longrightarrow>
   (k, u) \<in> set acc
   \<or> (\<exists>t xv yv. map_of reg k = Some t \<and> map_of (cells w x) k = Some xv
          \<and> map_of (cells w y) k = Some yv \<and> u = t_log_abs_det_jacobian t xv yv)
   \<or> (\<exists>xv. map_of (cells w x) k = Some xv \<and> u = ones_like xv)"
proof (induction ks arbitrary: acc w)
  case Nil
  then show ?case by simp
next
  case (Cons k0 ks)
  show ?case
  proof (cases "k0 \<in> set (keys reg)")
    case True
    from Cons.prems(1) True obtain t xv yv where t: "getitem reg k0 = Inr t"
      and xv: "getitem (cells w x) k0 = Inr xv" and yv: "getitem (cells w y) k0 = Inr yv"
      and step: "log_abs_det_jacobian_items reg ks x y
                   (setitem k0 (t_log_abs_det_jacobian t xv yv) acc)
                   (invoke (LogAbsDetJacobian k0 xv yv) w) = (Inr d, w')"
      by (auto split: sum.splits)
    from t xv yv have "map_of reg k0 = Some t" "map_of (cells w x) k0 = Some xv"
      "map_of (cells w y) k0 = Some yv"
      by (simp_all add: getitem_Inr_iff)
    with Cons.IH [OF step Cons.prems(2), unfolded cells_invoke]
      set_setitem [of k0 "t_log_abs_det_jacobian t xv yv" acc]
    show ?thesis
      by auto
  next
    case False
    from Cons.prems(1) False obtain xv where xv: "getitem (cells w x) k0 = Inr xv"
      and step: "log_abs_det_jacobian_items reg ks x y (setitem k0 (ones_like xv) acc) w
                   = (Inr d, w')"
      by (auto split: sum.splits)
    from xv have "map_of (cells w x) k0 = Some xv"
      by (simp add: getitem_Inr_iff)
    with Cons.IH [OF step Cons.prems(2)] set_setitem [of k0 "ones_like xv" acc]
    show ?thesis
      by auto
  qed
qed

lemma JointTransform_log_abs_det_jacobian_success:
  assumes eq: "set (keys (cells w x)) = set (keys (cells w y))"
    and sub: "set (keys (transformations self)) \<subseteq> set (keys (cells w x))"
    and alloc: "y < top w"
    and wf: "is_TensorDict w x"
    and conf: "\<forall>k t xv yv. map_of (transformations self) k = Some t
                 \<and> map_of (cells w x) k = Some xv \<and> map_of (cells w y) k = Some yv
                 \<longrightarrow> batch_dims_match (batch_size w x) (t_log_abs_det_jacobian t xv yv)"
  shows "\<exists>w'. JointTransform_log_abs_det_jacobian self x y w = (Inr (top w), w')
          \<and> top w' = Suc (top w)
          \<and> (\<forall>r. r \<noteq> top w \<longrightarrow> cells w' r = cells w r)
          \<and> batch_size w' (top w) = batch_size w x
          \<and> keys (cells w' (top w)) = keys (cells w x)
          \<and> (\<forall>k. map_of (cells w' (top w)) k =
                (case map_of (transformations self) k of
                   None \<Rightarrow> map_option ones_like (map_of (cells w x) k)
                 | Some t \<Rightarrow>
                     (case map_of (cells w x) k of
                        None \<Rightarrow> None
                      | Some xv \<Rightarrow>
                          map_option (t_log_abs_det_jacobian t xv) (map_of (cells w y) k))))"
proof -
  define reg where "reg = transformations self"
  define w1 where "w1 = snd (clone x w)"
  define val where "val = (\<lambda>k. case map_of reg k of
                   None \<Rightarrow> map_option ones_like (map_of (cells w x) k)
                 | Some t \<Rightarrow>
                     (case map_of (cells w x) k of
                        None \<Rightarrow> None
                      | Some xv \<Rightarrow>
                          map_option (t_log_abs_det_jacobian t xv) (map_of (cells w y) k)))"
  have w1: "clone x w = (top w, w1)"
    by (simp add: w1_def clone_def)
  have c1: "cells w1 = (cells w)(top w := cells w x)" and t1: "top w1 = Suc (top w)"
    and b1: "batch_size w1 = (batch_size w)(top w := batch_size w x)"
    by (simp_all add: w1_def clone_def)
  have x1: "cells w1 x = cells w x"
    by (simp add: c1)
  have y1: "cells w1 y = cells w y"
    using alloc by (simp add: c1)
  have "set (keys (cells w1 x)) \<subseteq> set (keys (cells w1 x))"
    and "set (keys (cells w1 x)) \<subseteq> set (keys (cells w1 y))"
    using eq by (simp_all add: x1 y1)
  from log_abs_det_jacobian_items_ok [OF this, of reg "[]"] obtain d w2
    where run: "log_abs_det_jacobian_items reg (keys (cells w1 x)) x y [] w1 = (Inr d, w2)"
    by (metis prod.collapse)
  from log_abs_det_jacobian_items_frame [of reg "keys (cells w1 x)" x y "[]" w1] run
  have c2: "cells w2 = cells w1" and t2: "top w2 = top w1"
    and b2: "batch_size w2 = batch_size w1"
    by simp_all
  have dd: "distinct (map fst d)"
    using log_abs_det_jacobian_items_distinct [OF run] by (simp add: keys_def)
  have kd: "set (keys d) \<subseteq> set (keys (cells w x))"
    using log_abs_det_jacobian_items_keys [OF run] by (simp add: keys_def x1)
  have md: "map_of d k = (if k \<in> set (keys (cells w x)) then val k else None)" for k
    using log_abs_det_jacobian_items_map_of [OF run, of k, unfolded x1 y1]
    by (simp add: val_def)
  define res where "res = fold (\<lambda>(k, v). setitem k v) d (cells w x)"
  define w3 where "w3 = w2\<lparr>cells := (cells w2)(top w := res)\<rparr>"
  have "list_all (\<lambda>(k, v). batch_dims_match (batch_size w2 (top w)) v) d"
    unfolding list_all_iff
  proof (clarify)
    fix k u
    assume "(k, u) \<in> set d"
    from log_abs_det_jacobian_items_values [OF run this, unfolded x1 y1]
    consider t xv yv where "map_of reg k = Some t" "map_of (cells w x) k = Some xv"
        "map_of (cells w y) k = Some yv" "u = t_log_abs_det_jacobian t xv yv"
      | xv where "map_of (cells w x) k = Some xv" "u = ones_like xv"
      by auto
    then show "batch_dims_match (batch_size w2 (top w)) u"
    proof cases
      case 1
      with conf show ?thesis
        by (simp add: reg_def b2 b1)
    next
      case 2
      from 2(1) have "(k, xv) \<in> set (cells w x)"
        by (rule map_of_SomeD)
      with wf have "batch_dims_match (batch_size w x) xv"
        by (auto simp: is_TensorDict_def list_all_iff)
      with 2(2) show ?thesis
        by (simp add: batch_dims_match_ones_like b2 b1)
    qed
  qed
  from update_ok [OF this] have upd: "update (top w) d w2 = (Inr (top w), w3)"
    by (simp add: w3_def res_def c2 c1)
  have result: "JointTransform_log_abs_det_jacobian self x y w = (Inr (top w), w3)"
    using eq sub
    by (simp add: JointTransform_log_abs_det_jacobian_def w1 run [unfolded reg_def] upd)
  have kres: "keys res = keys (cells w x)"
    unfolding res_def by (rule keys_fold_setitem [OF kd])
  have mres: "map_of res k = val k" for k
  proof (cases "k \<in> set (keys (cells w x))")
    case False
    then have "map_of (cells w x) k = None"
      by (rule map_of_unregistered)
    moreover from sub False have "map_of reg k = None"
      by (auto simp: reg_def intro: map_of_unregistered)
    ultimately show ?thesis
      using False by (simp add: res_def map_of_fold_setitem [OF dd] md val_def)
  next
    case True
    from getitem_mem [OF True] obtain xv where xv: "map_of (cells w x) k = Some xv"
      by blast
    from True eq have "k \<in> set (keys (cells w y))"
      by simp
    from getitem_mem [OF this] obtain yv where yv: "map_of (cells w y) k = Some yv"
      by blast
    have "\<exists>v. val k = Some v"
      by (simp add: val_def xv yv split: option.splits)
    then show ?thesis
      using True by (auto simp: res_def map_of_fold_setitem [OF dd] md)
  qed
  have "top w3 = Suc (top w)"
    by (simp add: w3_def t2 t1)
  moreover have "\<forall>r. r \<noteq> top w \<longrightarrow> cells w3 r = cells w r"
    by (simp add: w3_def c2 c1)
  moreover have "batch_size w3 (top w) = batch_size w x"
    by (simp add: w3_def b2 b1)
  moreover have "keys (cells w3 (top w)) = keys (cells w x)"
    by (simp add: w3_def kres)
  moreover have "\<forall>k. map_of (cells w3 (top w)) k = val k"
    using mres by (simp add: w3_def)
  ultimately show ?thesis
    using result unfolding val_def reg_def by blast
qed

lemma example_store_fwd_eq:
  "example_store_fwd =
     \<lparr>cells = (\<lambda>r. [])(0 := [(''a'', Tensor [] [0]), (''b'', Tensor [] [5])],
                        1 := [(''a'', Tensor [] [1]), (''b'', Tensor [] [5])]),
      batch_size = (\<lambda>r. []), top = 2, calls = [Call ''a'' (Tensor [] [0])]\<rparr>"
  by (simp add: example_store_fwd_def example_forward)

subsection \<open>Objects that are not written\<close>

lemma JointTransform_call_frame:
  "r < top w \<Longrightarrow>
   cells (snd (JointTransform_call self x w)) r = cells w r
   \<and> batch_size (snd (JointTransform_call self x w)) r = batch_size w r"
proof -
  assume r: "r < top w"
  define w1 where "w1 = snd (clone x w)"
  have w1: "clone x w = (top w, w1)"
    and c1: "cells w1 r = cells w r" and b1: "batch_size w1 r = batch_size w r"
    using r by (simp_all add: w1_def clone_def)
  obtain res w2 where run: "call_items (transformations self) x [] w1 = (res, w2)"
    by (cases "call_items (transformations self) x [] w1")
  from call_items_frame [of "transformations self" x "[]" w1] run
  have c2: "cells w2 = cells w1" and b2: "batch_size w2 = batch_size w1"
    by simp_all
  show ?thesis
  proof (cases res)
    case (Inl e)
    with run w1 c1 b1 c2 b2 show ?thesis
      by (simp add: JointTransform_call_def)
  next
    case (Inr d)
    from r update_frame [of "top w" d w2 r] have
      "cells (snd (update (top w) d w2)) r = cells w2 r"
      "batch_size (snd (update (top w) d w2)) r = batch_size w2 r"
      by simp_all
    with Inr run w1 c1 b1 c2 b2 show ?thesis
      by (simp add: JointTransform_call_def)
  qed
qed

lemma JointTransform_inverse_frame:
  "r < top w \<Longrightarrow>
   cells (snd (JointTransform_inverse self x w)) r = cells w r
   \<and> batch_size (snd (JointTransform_inverse self x w)) r = batch_size w r"
proof -
  assume r: "r < top w"
  define w1 where "w1 = snd (clone x w)"
  have w1: "clone x w = (top w, w1)"
    and c1: "cells w1 r = cells w r" and b1: "batch_size w1 r = batch_size w r"
    using r by (simp_all add: w1_def clone_def)
  obtain res w2 where run: "inverse_items (transformations self) x [] w1 = (res, w2)"
    by (cases "inverse_items (transformations self) x [] w1")
  from inverse_items_frame [of "transformations self" x "[]" w1] run
  have c2: "cells w2 = cells w1" and b2: "batch_size w2 = batch_size w1"
    by simp_all
  show ?thesis
  proof (cases res)
    case (Inl e)
    with run w1 c1 b1 c2 b2 show ?thesis
      by (simp add: JointTransform_inverse_def)
  next
    case (Inr d)
    from r update_frame [of "top w" d w2 r] have
      "cells (snd (update (top w) d w2)) r = cells w2 r"
      "batch_size (snd (update (top w) d w2)) r = batch_size w2 r"
      by simp_all
    with Inr run w1 c1 b1 c2 b2 show ?thesis
      by (simp add: JointTransform_inverse_def)
  qed
qed

lemma JointTransform_log_abs_det_jacobian_frame:
  "r < top w \<Longrightarrow>
   cells (snd (JointTransform_log_abs_det_jacobian self x y w)) r = cells w r
   \<and> batch_size (snd (JointTransform_log_abs_det_jacobian self x y w)) r = batch_size w r"
proof -
  assume r: "r < top w"
  define w1 where "w1 = snd (clone x w)"
  have w1: "clone x w = (top w, w1)"
    and c1: "cells w1 r = cells w r" and b1: "batch_size w1 r = batch_size w r"
    using r by (simp_all add: w1_def clone_def)
  obtain res w2 where run: "log_abs_det_jacobian_items (transformations self) (keys (cells w1 x)) x y [] w1
      = (res, w2)"
    by (cases "log_abs_det_jacobian_items (transformations self) (keys (cells w1 x)) x y [] w1")
  from log_abs_det_jacobian_items_frame
    [of "transformations self" "keys (cells w1 x)" x y "[]" w1] run
  have c2: "cells w2 = cells w1" and b2: "batch_size w2 = batch_size w1"
    by simp_all
  show ?thesis
  proof (cases res)
    case (Inl e)
    with run w1 c1 b1 c2 b2 show ?thesis
      by (simp add: JointTransform_log_abs_det_jacobian_def)
  next
    case (Inr d)
    from r update_frame [of "top w" d w2 r] have
      "cells (snd (update (top w) d w2)) r = cells w2 r"
      "batch_size (snd (update (top w) d w2)) r = batch_size w2 r"
      by simp_all
    with Inr run w1 c1 b1 c2 b2 show ?thesis
      by (simp add: JointTransform_log_abs_det_jacobian_def)
  qed
qed

lemma jacobian_keys_differ:
  "set (keys (cells w x)) \<noteq> set (keys (cells w y)) \<Longrightarrow>
   JointTransform_log_abs_det_jacobian self x y w =
     (Inl (ValueError ''x and y must have the same keys.''), w)"
  by (simp add: JointTransform_log_abs_det_jacobian_def)

lemma jacobian_not_covered:
  "set (keys (cells w x)) = set (keys (cells w y)) \<Longrightarrow>
   \<not> set (keys (transformations self)) \<subseteq> set (keys (cells w x)) \<Longrightarrow>
   JointTransform_log_abs_det_jacobian self x y w =
     (Inl (ValueError ''All keys in transformations must be in x and y.''), w)"
  by (simp add: JointTransform_log_abs_det_jacobian_def)

subsection \<open>The constructor\<close>

lemma sublist_join: "s \<in> set ss \<Longrightarrow> sublist s (join sep ss)"
proof (induction sep ss rule: join.induct)
  case (1 sep)
  then show ?case by simp
next
  case (2 sep x)
  then show ?case by simp
next
  case (3 sep x y ys)
  show ?case
  proof (cases "s = x")
    case True
    then show ?thesis by simp
  next
    case False
    with 3 have "sublist s (join sep (y # ys))"
      by simp
    then have "sublist s ((x @ sep) @ join sep (y # ys))"
      by (rule sublist_order.order.trans) (rule sublist_append_leftI)
    then show ?thesis by simp
  qed
qed

lemma sublist_list_repr: "s \<in> set ss \<Longrightarrow> sublist s (pre @ list_repr ss @ post)"
proof -
  assume "s \<in> set ss"
  then have "sublist s (join '', '' ss)"
    by (rule sublist_join)
  then have "sublist s ((pre @ ''['') @ join '', '' ss @ ('']'' @ post))"
    by (rule sublist_order.order.trans) (rule sublist_appendI)
  then show ?thesis
    by (simp add: list_repr_def)
qed

lemma unwrap_TransformObj:
  "[(k, t). (k, TransformObj t) \<leftarrow> map (\<lambda>(k, t). (k, TransformObj t)) reg] = reg"
  by (induction reg) auto

lemma all_TransformObj:
  "list_all isinstance_Transform (map snd (map (\<lambda>(k, t). (k, TransformObj t)) reg))"
  by (induction reg) auto

lemma setitem_new: "k \<notin> set (keys acc) \<Longrightarrow> setitem k v acc = acc @ [(k, v)]"
  by (induction acc) (auto simp: setitem_def keys_def)

lemma with_cache_one: "with_cache 1 t = Inr (t\<lparr>t_cache_size := 1\<rparr>)"
  by (simp add: with_cache_def Transform_init_def)

lemma with_cache_items_one:
  "distinct (keys acc @ keys reg) \<Longrightarrow>
   with_cache_items 1 reg acc = Inr (acc @ map (\<lambda>(k, t). (k, t\<lparr>t_cache_size := 1\<rparr>)) reg)"
proof (induction reg arbitrary: acc)
  case Nil
  then show ?case by simp
next
  case (Cons p reg)
  obtain k t where p: "p = (k, t)" by (cases p)
  from Cons.prems p have new: "k \<notin> set (keys acc)"
    and rest: "distinct (keys (acc @ [(k, t\<lparr>t_cache_size := 1\<rparr>)]) @ keys reg)"
    by (auto simp: keys_def)
  from Cons.IH [OF rest] show ?case
    by (simp add: p with_cache_one setitem_new [OF new])
qed

lemma with_cache_items_unsupported:
  "c \<noteq> 0 \<Longrightarrow> c \<noteq> 1 \<Longrightarrow> with_cache_items c reg acc = Inl e \<Longrightarrow>
   e = ValueError ''cache_size must be 0 or 1''"
proof (induction reg arbitrary: acc)
  case Nil
  then show ?case by simp
next
  case (Cons p reg)
  obtain k t where p: "p = (k, t)" by (cases p)
  from Cons.prems(3) p Cons.prems(1,2) Cons.IH [OF Cons.prems(1,2)] show ?case
    by (auto simp: with_cache_def Transform_init_def split: if_splits sum.splits)
qed

subsection \<open>The examples with a batch size\<close>

lemma example_batch_forward:
  "JointTransform_call example_jt 0 example_batch =
     (Inr 1,
      \<lparr>cells = (\<lambda>r. [])(0 := [(''a'', Tensor [3, 2] [0, 0, 0, 0, 0, 0]),
                               (''b'', Tensor [3] [5, 5, 5])],
                         1 := [(''a'', Tensor [3, 2] [1, 1, 1, 1, 1, 1]),
                               (''b'', Tensor [3] [5, 5, 5])]),
       batch_size = (\<lambda>r. [])(0 := [3], 1 := [3]), top = 2,
       calls = [Call ''a'' (Tensor [3, 2] [0, 0, 0, 0, 0, 0])]\<rparr>)"
  by (simp add: JointTransform_call_def example_jt_def example_batch_def clone_def
      batch_dims_match_def getitem_def setitem_def invoke_def keys_def ExpTransform_def tmap_def)

lemma example_batch_fwd_eq:
  "example_batch_fwd =
     \<lparr>cells = (\<lambda>r. [])(0 := [(''a'', Tensor [3, 2] [0, 0, 0, 0, 0, 0]),
                              (''b'', Tensor [3] [5, 5, 5])],
                        1 := [(''a'', Tensor [3, 2] [1, 1, 1, 1, 1, 1]),
                              (''b'', Tensor [3] [5, 5, 5])]),
      batch_size = (\<lambda>r. [])(0 := [3], 1 := [3]), top = 2,
      calls = [Call ''a'' (Tensor [3, 2] [0, 0, 0, 0, 0, 0])]\<rparr>"
  by (simp add: example_batch_fwd_def example_batch_forward)

lemma ReverseShapeTransform_involution:
  "t_inv ReverseShapeTransform (t_call ReverseShapeTransform v) = v
   \<and> t_call ReverseShapeTransform (t_inv ReverseShapeTransform v) = v"
  by (simp add: ReverseShapeTransform_def)

lemma registered_conforms:
  assumes "\<forall>k t v. getitem reg k = Inr t \<and> getitem d k = Inr v \<longrightarrow> batch_dims_match bs (f t v)"
    and "distinct (keys reg)"
  shows "\<forall>(k, t) \<in> set reg. \<forall>v. map_of d k = Some v \<longrightarrow> batch_dims_match bs (f t v)"
proof (clarify)
  fix k t v
  assume "(k, t) \<in> set reg" and v: "map_of d k = Some v"
  with assms(2) have "map_of reg k = Some t"
    by (simp add: keys_def)
  with v assms(1) show "batch_dims_match bs (f t v)"
    by (simp add: getitem_Inr_iff)
qed

section \<open>The properties\<close>

text \<open>
  C8. The property \<^verbatim>\<open>bijective\<close> is true iff every registered transform reports
  \<open>bijective = True\<close>; in particular one registered transform that is not bijective makes
  it false. It is a function of the registry alone: it neither reads nor changes the store.
\<close>

theorem bijective_iff_all_registered:
  "(JointTransform_bijective self \<longleftrightarrow>
      (\<forall>(k, t) \<in> set (transformations self). t_bijective t))
   \<and> ((k, t) \<in> set (transformations self) \<and> \<not> t_bijective t
        \<longrightarrow> \<not> JointTransform_bijective self)"
  by (force simp: JointTransform_bijective_def list_all_iff)

theorem bijective_iff_all_registered_witness:
  "JointTransform_bijective \<lparr>transformations = [(''a'', ExpTransform)], cache_size = 0\<rparr>
   \<and> \<not> JointTransform_bijective
        \<lparr>transformations = [(''a'', ExpTransform), (''b'', AbsTransform)], cache_size = 0\<rparr>"
  using bijective_iff_all_registered
      [of "\<lparr>transformations = [(''a'', ExpTransform)], cache_size = 0\<rparr>" "''a''" ExpTransform]
    bijective_iff_all_registered
      [of "\<lparr>transformations = [(''a'', ExpTransform), (''b'', AbsTransform)], cache_size = 0\<rparr>"
          "''b''" AbsTransform]
  by (simp add: ExpTransform_def AbsTransform_def)

text \<open>
  C9. The containers passed to \<^verbatim>\<open>_call\<close>, \<^verbatim>\<open>_inverse\<close> and
  \<^verbatim>\<open>log_abs_det_jacobian\<close> are allocated objects of the store; after the call, whether it
  returns or raises, each of them holds the fields and values it held before, and has the
  batch size it had. The only object written is the clone.
\<close>

theorem inputs_unchanged:
  assumes x: "x < top w" and y: "y < top w"
  shows "cells (snd (JointTransform_call self x w)) x = cells w x
       \<and> cells (snd (JointTransform_inverse self x w)) x = cells w x
       \<and> cells (snd (JointTransform_log_abs_det_jacobian self x y w)) x = cells w x
       \<and> cells (snd (JointTransform_log_abs_det_jacobian self x y w)) y = cells w y
       \<and> batch_size (snd (JointTransform_call self x w)) x = batch_size w x
       \<and> batch_size (snd (JointTransform_inverse self x w)) x = batch_size w x
       \<and> batch_size (snd (JointTransform_log_abs_det_jacobian self x y w)) x = batch_size w x
       \<and> batch_size (snd (JointTransform_log_abs_det_jacobian self x y w)) y = batch_size w y"
  using JointTransform_call_frame [OF x] JointTransform_inverse_frame [OF x]
    JointTransform_log_abs_det_jacobian_frame [OF x]
    JointTransform_log_abs_det_jacobian_frame [OF y]
  by simp

theorem inputs_unchanged_witness:
  "(0::nat) < top example_store_fwd \<and> (1::nat) < top example_store_fwd
   \<and> cells (snd (JointTransform_call example_jt 0 example_store_fwd)) 0
        = [(''a'', Tensor [] [0]), (''b'', Tensor [] [5])]
   \<and> cells (snd (JointTransform_inverse example_jt 0 example_store_fwd)) 0
        = [(''a'', Tensor [] [0]), (''b'', Tensor [] [5])]
   \<and> cells (snd (JointTransform_log_abs_det_jacobian example_jt 0 1 example_store_fwd)) 0
        = [(''a'', Tensor [] [0]), (''b'', Tensor [] [5])]
   \<and> cells (snd (JointTransform_log_abs_det_jacobian example_jt 0 1 example_store_fwd)) 1
        = [(''a'', Tensor [] [1]), (''b'', Tensor [] [5])]"
proof -
  have x: "(0::nat) < top example_store_fwd" and y: "(1::nat) < top example_store_fwd"
    by (simp_all add: example_store_fwd_eq)
  have "cells example_store_fwd 0 = [(''a'', Tensor [] [0]), (''b'', Tensor [] [5])]"
    and "cells example_store_fwd 1 = [(''a'', Tensor [] [1]), (''b'', Tensor [] [5])]"
    by (simp_all add: example_store_fwd_eq)
  with inputs_unchanged [OF x y, of example_jt] x y show ?thesis
    by simp
qed

text \<open>
  C4, as the code has it. When a key of the registry is missing from the container,
  \<^verbatim>\<open>_call\<close> and \<^verbatim>\<open>_inverse\<close> raise \<^verbatim>\<open>ValueError\<close> with a fixed message. The store is
  returned as it was: no container has been allocated, so there is no partial result, and
  the list of transform calls has not grown. The message is the same whatever keys are
  missing.
\<close>

theorem key_mismatch_fails_fast:
  assumes "\<not> set (keys (transformations self)) \<subseteq> set (keys (cells w x))"
  shows "JointTransform_call self x w =
           (Inl (ValueError ''All keys in transformations must be in x.''), w)
       \<and> JointTransform_inverse self x w =
           (Inl (ValueError ''All keys in transformations must be in y.''), w)"
  using assms by (simp add: JointTransform_call_def JointTransform_inverse_def)

theorem key_mismatch_fails_fast_witness:
  "\<not> set (keys (transformations example_jt_z)) \<subseteq> set (keys (cells example_store 0))
   \<and> JointTransform_call example_jt_z 0 example_store =
        (Inl (ValueError ''All keys in transformations must be in x.''), example_store)
   \<and> JointTransform_inverse example_jt_z 0 example_store =
        (Inl (ValueError ''All keys in transformations must be in y.''), example_store)
   \<and> top example_store = 1 \<and> calls example_store = []"
proof -
  have h: "\<not> set (keys (transformations example_jt_z)) \<subseteq> set (keys (cells example_store 0))"
    by (simp add: example_jt_z_def example_store_def keys_def)
  from key_mismatch_fails_fast [OF h] h show ?thesis
    by (simp add: example_store_def)
qed

text \<open>
  The claim C4 as it is written says that the error names the missing keys. The key
  \<open>z\<close> is registered and missing from the container, and the text of the error does not
  contain it.
\<close>

theorem key_mismatch_error_names_no_key:
  "fst (JointTransform_call example_jt_z 0 example_store) =
      Inl (ValueError ''All keys in transformations must be in x.'')
   \<and> \<not> sublist ''z'' ''All keys in transformations must be in x.''
   \<and> fst (JointTransform_inverse example_jt_z 0 example_store) =
      Inl (ValueError ''All keys in transformations must be in y.'')
   \<and> \<not> sublist ''z'' ''All keys in transformations must be in y.''"
  by (simp add: JointTransform_call_def JointTransform_inverse_def example_jt_z_def
      example_store_def keys_def sublist_code)

text \<open>
  C5. \<^verbatim>\<open>log_abs_det_jacobian(x, y)\<close> raises \<^verbatim>\<open>ValueError\<close> when the key sets of
  \<open>x\<close> and \<open>y\<close> differ, and raises \<^verbatim>\<open>ValueError\<close> when they agree and do not cover the
  registry. The two errors carry different messages, so the error of a call of the first
  kind is never equal to the error of a call of the second kind.
\<close>

theorem jacobian_key_errors:
  "(set (keys (cells w x)) \<noteq> set (keys (cells w y)) \<longrightarrow>
      JointTransform_log_abs_det_jacobian self x y w =
        (Inl (ValueError ''x and y must have the same keys.''), w))
   \<and> (set (keys (cells w x)) = set (keys (cells w y))
        \<and> \<not> set (keys (transformations self)) \<subseteq> set (keys (cells w x)) \<longrightarrow>
      JointTransform_log_abs_det_jacobian self x y w =
        (Inl (ValueError ''All keys in transformations must be in x and y.''), w))
   \<and> (set (keys (cells w x)) \<noteq> set (keys (cells w y))
        \<and> set (keys (cells w' x')) = set (keys (cells w' y'))
        \<and> \<not> set (keys (transformations self')) \<subseteq> set (keys (cells w' x')) \<longrightarrow>
      fst (JointTransform_log_abs_det_jacobian self x y w)
        \<noteq> fst (JointTransform_log_abs_det_jacobian self' x' y' w'))"
proof (intro conjI impI)
  assume "set (keys (cells w x)) \<noteq> set (keys (cells w y))"
  then show "JointTransform_log_abs_det_jacobian self x y w =
      (Inl (ValueError ''x and y must have the same keys.''), w)"
    by (rule jacobian_keys_differ)
next
  assume "set (keys (cells w x)) = set (keys (cells w y))
      \<and> \<not> set (keys (transformations self)) \<subseteq> set (keys (cells w x))"
  then show "JointTransform_log_abs_det_jacobian self x y w =
      (Inl (ValueError ''All keys in transformations must be in x and y.''), w)"
    by (blast intro: jacobian_not_covered)
next
  assume a: "set (keys (cells w x)) \<noteq> set (keys (cells w y))
      \<and> set (keys (cells w' x')) = set (keys (cells w' y'))
      \<and> \<not> set (keys (transformations self')) \<subseteq> set (keys (cells w' x'))"
  then have "JointTransform_log_abs_det_jacobian self x y w =
      (Inl (ValueError ''x and y must have the same keys.''), w)"
    by (blast intro: jacobian_keys_differ)
  moreover from a have "JointTransform_log_abs_det_jacobian self' x' y' w' =
      (Inl (ValueError ''All keys in transformations must be in x and y.''), w')"
    by (blast intro: jacobian_not_covered)
  ultimately show "fst (JointTransform_log_abs_det_jacobian self x y w)
      \<noteq> fst (JointTransform_log_abs_det_jacobian self' x' y' w')"
    by simp
qed

theorem jacobian_key_errors_witness:
  "set (keys (cells example_store_xy 0)) \<noteq> set (keys (cells example_store_xy 1))
   \<and> JointTransform_log_abs_det_jacobian example_jt 0 1 example_store_xy =
        (Inl (ValueError ''x and y must have the same keys.''), example_store_xy)
   \<and> set (keys (cells example_store 0)) = set (keys (cells example_store 0))
   \<and> \<not> set (keys (transformations example_jt_z)) \<subseteq> set (keys (cells example_store 0))
   \<and> JointTransform_log_abs_det_jacobian example_jt_z 0 0 example_store =
        (Inl (ValueError ''All keys in transformations must be in x and y.''), example_store)
   \<and> fst (JointTransform_log_abs_det_jacobian example_jt 0 1 example_store_xy)
        \<noteq> fst (JointTransform_log_abs_det_jacobian example_jt_z 0 0 example_store)"
proof -
  have d: "set (keys (cells example_store_xy 0)) \<noteq> set (keys (cells example_store_xy 1))"
    by (auto simp: example_store_xy_def keys_def)
  have c: "\<not> set (keys (transformations example_jt_z)) \<subseteq> set (keys (cells example_store 0))"
    by (simp add: example_jt_z_def example_store_def keys_def)
  from jacobian_key_errors
    [of example_store_xy 0 1 example_jt example_store 0 0 example_jt_z]
    jacobian_key_errors [of example_store 0 0 example_jt_z] d c
  show ?thesis
    by simp
qed

text \<open>
  C6. When a value of the \<open>transformations\<close> dictionary is not a Transform, the constructor
  raises \<^verbatim>\<open>AssertionError\<close>, whatever the cache size. Its message lists the type of every
  value of the dictionary, the offending ones among them. No JointTransform is returned, so
  there is no object whose \<^verbatim>\<open>_call\<close>, \<^verbatim>\<open>_inverse\<close> or \<^verbatim>\<open>log_abs_det_jacobian\<close>
  could be called.
\<close>

theorem construction_rejects_non_transforms:
  assumes "\<not> list_all isinstance_Transform (map snd ts)"
  shows "\<exists>msg. JointTransform_init ts c = Inl (AssertionError msg)
          \<and> (\<forall>(k, v) \<in> set ts. sublist (type_repr (type_name v)) msg)"
proof -
  have "sublist (type_repr (type_name v))
          (''All transformations must be of type torch.distributions.Transform, but are ''
            @ list_repr (map (type_repr \<circ> type_name) (map snd ts)) @ ''.'')"
    if "(k, v) \<in> set ts" for k v
  proof -
    from that have "type_repr (type_name v) \<in> set (map (type_repr \<circ> type_name) (map snd ts))"
      by force
    then show ?thesis
      by (rule sublist_list_repr)
  qed
  with assms show ?thesis
    by (auto simp: JointTransform_init_def)
qed

theorem construction_rejects_non_transforms_witness:
  "\<not> list_all isinstance_Transform (map snd [(''a'', OtherObj ''str'' :: real pyobj)])
   \<and> JointTransform_init [(''a'', OtherObj ''str'' :: real pyobj)] 0 =
       Inl (AssertionError
         (''All transformations must be of type torch.distributions.Transform, but are [<class ''
            @ [CHR 0x27] @ ''str'' @ [CHR 0x27] @ ''>].''))
   \<and> sublist (type_repr ''str'')
       (''All transformations must be of type torch.distributions.Transform, but are [<class ''
            @ [CHR 0x27] @ ''str'' @ [CHR 0x27] @ ''>].'')"
proof -
  have h: "\<not> list_all isinstance_Transform (map snd [(''a'', OtherObj ''str'' :: real pyobj)])"
    by simp
  from construction_rejects_non_transforms [OF h, of 0] show ?thesis
    by (simp add: JointTransform_init_def list_repr_def type_repr_def)
qed

text \<open>
  C7. For a dictionary of transforms: with \<open>cache_size = 1\<close> every stored entry is
  \<open>t.with_cache(1)\<close>, the transform with its cache size set to one; with \<open>cache_size = 0\<close>
  the transforms are stored as supplied; with any other cache size the constructor raises
  \<^verbatim>\<open>ValueError\<close>, from \<^verbatim>\<open>with_cache\<close> or from the constructor of the base class.
\<close>

theorem construction_cache_size:
  assumes "distinct (keys reg)"
  shows "JointTransform_init (map (\<lambda>(k, t). (k, TransformObj t)) reg) 1 =
           Inr \<lparr>transformations = map (\<lambda>(k, t). (k, t\<lparr>t_cache_size := 1\<rparr>)) reg,
                cache_size = 1\<rparr>
       \<and> (\<forall>(k, t) \<in> set reg. with_cache 1 t = Inr (t\<lparr>t_cache_size := 1\<rparr>))
       \<and> JointTransform_init (map (\<lambda>(k, t). (k, TransformObj t)) reg) 0 =
           Inr \<lparr>transformations = reg, cache_size = 0\<rparr>
       \<and> (c \<noteq> 0 \<and> c \<noteq> 1 \<longrightarrow>
            JointTransform_init (map (\<lambda>(k, t). (k, TransformObj t)) reg) c =
              Inl (ValueError ''cache_size must be 0 or 1''))"
proof (intro conjI impI)
  from assms have "distinct (keys [] @ keys reg)"
    by (simp add: keys_def)
  from with_cache_items_one [OF this]
  show "JointTransform_init (map (\<lambda>(k, t). (k, TransformObj t)) reg) 1 =
           Inr \<lparr>transformations = map (\<lambda>(k, t). (k, t\<lparr>t_cache_size := 1\<rparr>)) reg,
                cache_size = 1\<rparr>"
    by (simp add: JointTransform_init_def all_TransformObj unwrap_TransformObj
        Transform_init_def del: map_map)
next
  show "\<forall>(k, t) \<in> set reg. with_cache 1 t = Inr (t\<lparr>t_cache_size := 1\<rparr>)"
    by (simp add: with_cache_one)
next
  show "JointTransform_init (map (\<lambda>(k, t). (k, TransformObj t)) reg) 0 =
           Inr \<lparr>transformations = reg, cache_size = 0\<rparr>"
    by (simp add: JointTransform_init_def all_TransformObj unwrap_TransformObj
        Transform_init_def del: map_map)
next
  assume c: "c \<noteq> 0 \<and> c \<noteq> 1"
  then have c0: "c \<noteq> 0" and c1: "c \<noteq> 1"
    by simp_all
  have init: "Transform_init c = Inl (ValueError ''cache_size must be 0 or 1'')"
    using c by (simp add: Transform_init_def)
  show "JointTransform_init (map (\<lambda>(k, t). (k, TransformObj t)) reg) c =
              Inl (ValueError ''cache_size must be 0 or 1'')"
  proof (cases "with_cache_items c reg []")
    case (Inl e)
    from with_cache_items_unsupported [OF c0 c1 Inl] Inl c0 show ?thesis
      by (simp add: JointTransform_init_def all_TransformObj unwrap_TransformObj del: map_map)
  next
    case (Inr r)
    with c0 init show ?thesis
      by (simp add: JointTransform_init_def all_TransformObj unwrap_TransformObj del: map_map)
  qed
qed

theorem construction_cache_size_witness:
  "distinct (keys [(''a'', ExpTransform)])
   \<and> JointTransform_init [(''a'', TransformObj ExpTransform)] 1 =
       Inr \<lparr>transformations = [(''a'', ExpTransform\<lparr>t_cache_size := 1\<rparr>)], cache_size = 1\<rparr>
   \<and> with_cache 1 ExpTransform = Inr (ExpTransform\<lparr>t_cache_size := 1\<rparr>)
   \<and> JointTransform_init [(''a'', TransformObj ExpTransform)] 0 =
       Inr \<lparr>transformations = [(''a'', ExpTransform)], cache_size = 0\<rparr>
   \<and> JointTransform_init [(''a'', TransformObj ExpTransform)] 2 =
       Inl (ValueError ''cache_size must be 0 or 1'')"
proof -
  have h: "distinct (keys [(''a'', ExpTransform)])"
    by (simp add: keys_def)
  from construction_cache_size [OF h, of 2] h show ?thesis
    by simp
qed

text \<open>
  C2, as the code has it. When the keys of \<open>x\<close> cover the registry (a dictionary: its keys
  are distinct) and every value that \<^verbatim>\<open>_call\<close> computes, \<open>transform[k](x[k])\<close>, has the
  batch dimensions of \<open>x\<close>, \<^verbatim>\<open>_call\<close> returns a new container with the keys (in the same
  order) and the batch size of \<open>x\<close>, in which a registered key \<open>k\<close> holds
  \<open>transform[k](x[k])\<close> and every other key holds the value it has in \<open>x\<close>;
  \<^verbatim>\<open>_inverse\<close> does the same with \<open>transform[k].inv\<close>.
\<close>

theorem forward_inverse_per_key:
  assumes sub: "set (keys (transformations self)) \<subseteq> set (keys (cells w x))"
    and dist: "distinct (keys (transformations self))"
  shows "((\<forall>k t v. getitem (transformations self) k = Inr t \<and> getitem (cells w x) k = Inr v
             \<longrightarrow> batch_dims_match (batch_size w x) (t_call t v))
          \<longrightarrow> (\<exists>y w'. JointTransform_call self x w = (Inr y, w') \<and> y = top w
                \<and> keys (cells w' y) = keys (cells w x)
                \<and> batch_size w' y = batch_size w x
                \<and> (\<forall>k t v. getitem (transformations self) k = Inr t
                        \<and> getitem (cells w x) k = Inr v
                      \<longrightarrow> getitem (cells w' y) k = Inr (t_call t v))
                \<and> (\<forall>k. k \<notin> set (keys (transformations self))
                      \<longrightarrow> getitem (cells w' y) k = getitem (cells w x) k)))
       \<and> ((\<forall>k t v. getitem (transformations self) k = Inr t \<and> getitem (cells w x) k = Inr v
             \<longrightarrow> batch_dims_match (batch_size w x) (t_inv t v))
          \<longrightarrow> (\<exists>y w'. JointTransform_inverse self x w = (Inr y, w') \<and> y = top w
                \<and> keys (cells w' y) = keys (cells w x)
                \<and> batch_size w' y = batch_size w x
                \<and> (\<forall>k t v. getitem (transformations self) k = Inr t
                        \<and> getitem (cells w x) k = Inr v
                      \<longrightarrow> getitem (cells w' y) k = Inr (t_inv t v))
                \<and> (\<forall>k. k \<notin> set (keys (transformations self))
                      \<longrightarrow> getitem (cells w' y) k = getitem (cells w x) k)))"
proof (intro conjI impI)
  assume "\<forall>k t v. getitem (transformations self) k = Inr t \<and> getitem (cells w x) k = Inr v
             \<longrightarrow> batch_dims_match (batch_size w x) (t_call t v)"
  from registered_conforms [OF this dist]
  have conf: "\<forall>(k, t) \<in> set (transformations self). \<forall>v. map_of (cells w x) k = Some v
                 \<longrightarrow> batch_dims_match (batch_size w x) (t_call t v)" .
  from JointTransform_call_success [OF sub dist conf] obtain w' where
    run: "JointTransform_call self x w = (Inr (top w), w')"
    and bs: "batch_size w' (top w) = batch_size w x"
    and ks: "keys (cells w' (top w)) = keys (cells w x)"
    and m: "\<And>k. map_of (cells w' (top w)) k =
            (case map_of (transformations self) k of
               None \<Rightarrow> map_of (cells w x) k
             | Some t \<Rightarrow> map_option (t_call t) (map_of (cells w x) k))"
    by blast
  have reg: "getitem (cells w' (top w)) k = Inr (t_call t v)"
    if "getitem (transformations self) k = Inr t \<and> getitem (cells w x) k = Inr v" for k t v
    using that by (simp add: getitem_Inr_iff m)
  have other: "getitem (cells w' (top w)) k = getitem (cells w x) k"
    if "k \<notin> set (keys (transformations self))" for k
    using map_of_unregistered [OF that] by (simp add: getitem_eq_iff m)
  from run bs ks reg other
  show "\<exists>y w'. JointTransform_call self x w = (Inr y, w') \<and> y = top w
            \<and> keys (cells w' y) = keys (cells w x)
            \<and> batch_size w' y = batch_size w x
            \<and> (\<forall>k t v. getitem (transformations self) k = Inr t \<and> getitem (cells w x) k = Inr v
                  \<longrightarrow> getitem (cells w' y) k = Inr (t_call t v))
            \<and> (\<forall>k. k \<notin> set (keys (transformations self))
                  \<longrightarrow> getitem (cells w' y) k = getitem (cells w x) k)"
    by blast
next
  assume "\<forall>k t v. getitem (transformations self) k = Inr t \<and> getitem (cells w x) k = Inr v
             \<longrightarrow> batch_dims_match (batch_size w x) (t_inv t v)"
  from registered_conforms [OF this dist]
  have conf: "\<forall>(k, t) \<in> set (transformations self). \<forall>v. map_of (cells w x) k = Some v
                 \<longrightarrow> batch_dims_match (batch_size w x) (t_inv t v)" .
  from JointTransform_inverse_success [OF sub dist conf] obtain w' where
    run: "JointTransform_inverse self x w = (Inr (top w), w')"
    and bs: "batch_size w' (top w) = batch_size w x"
    and ks: "keys (cells w' (top w)) = keys (cells w x)"
    and m: "\<And>k. map_of (cells w' (top w)) k =
            (case map_of (transformations self) k of
               None \<Rightarrow> map_of (cells w x) k
             | Some t \<Rightarrow> map_option (t_inv t) (map_of (cells w x) k))"
    by blast
  have reg: "getitem (cells w' (top w)) k = Inr (t_inv t v)"
    if "getitem (transformations self) k = Inr t \<and> getitem (cells w x) k = Inr v" for k t v
    using that by (simp add: getitem_Inr_iff m)
  have other: "getitem (cells w' (top w)) k = getitem (cells w x) k"
    if "k \<notin> set (keys (transformations self))" for k
    using map_of_unregistered [OF that] by (simp add: getitem_eq_iff m)
  from run bs ks reg other
  show "\<exists>y w'. JointTransform_inverse self x w = (Inr y, w') \<and> y = top w
            \<and> keys (cells w' y) = keys (cells w x)
            \<and> batch_size w' y = batch_size w x
            \<and> (\<forall>k t v. getitem (transformations self) k = Inr t \<and> getitem (cells w x) k = Inr v
                  \<longrightarrow> getitem (cells w' y) k = Inr (t_inv t v))
            \<and> (\<forall>k. k \<notin> set (keys (transformations self))
                  \<longrightarrow> getitem (cells w' y) k = getitem (cells w x) k)"
    by blast
qed

theorem forward_inverse_per_key_witness:
  "set (keys (transformations example_jt)) \<subseteq> set (keys (cells example_batch 0))
   \<and> distinct (keys (transformations example_jt))
   \<and> batch_dims_match (batch_size example_batch 0)
        (t_call ExpTransform (Tensor [3, 2] [0, 0, 0, 0, 0, 0]))
   \<and> fst (JointTransform_call example_jt 0 example_batch) = Inr 1
   \<and> cells (snd (JointTransform_call example_jt 0 example_batch)) 1
        = [(''a'', Tensor [3, 2] [1, 1, 1, 1, 1, 1]), (''b'', Tensor [3] [5, 5, 5])]
   \<and> batch_size (snd (JointTransform_call example_jt 0 example_batch)) 1 = [3]
   \<and> batch_dims_match (batch_size example_batch 0)
        (t_inv ExpTransform (Tensor [3, 2] [0, 0, 0, 0, 0, 0]))
   \<and> fst (JointTransform_inverse example_jt 0 example_batch) = Inr 1
   \<and> getitem (cells (snd (JointTransform_inverse example_jt 0 example_batch)) 1) ''a''
        = Inr (t_inv ExpTransform (Tensor [3, 2] [0, 0, 0, 0, 0, 0]))
   \<and> getitem (cells (snd (JointTransform_inverse example_jt 0 example_batch)) 1) ''b''
        = Inr (Tensor [3] [5, 5, 5])"
proof -
  have sub: "set (keys (transformations example_jt)) \<subseteq> set (keys (cells example_batch 0))"
    by (simp add: example_jt_def example_batch_def keys_def)
  have dist: "distinct (keys (transformations example_jt))"
    by (simp add: example_jt_def keys_def)
  have a: "getitem (transformations example_jt) ''a'' = Inr ExpTransform"
    and xa: "getitem (cells example_batch 0) ''a'' = Inr (Tensor [3, 2] [0, 0, 0, 0, 0, 0])"
    and xb: "getitem (cells example_batch 0) ''b'' = Inr (Tensor [3] [5, 5, 5])"
    and b: "''b'' \<notin> set (keys (transformations example_jt))"
    by (simp_all add: example_jt_def example_batch_def getitem_def keys_def)
  have cf: "batch_dims_match (batch_size example_batch 0)
        (t_call ExpTransform (Tensor [3, 2] [0, 0, 0, 0, 0, 0]))"
    and ci: "batch_dims_match (batch_size example_batch 0)
        (t_inv ExpTransform (Tensor [3, 2] [0, 0, 0, 0, 0, 0]))"
    by (simp_all add: example_batch_def batch_dims_match_def ExpTransform_def tmap_def)
  have "\<forall>k t v. getitem (transformations example_jt) k = Inr t
          \<and> getitem (cells example_batch 0) k = Inr v
        \<longrightarrow> batch_dims_match (batch_size example_batch 0) (t_inv t v)"
    using ci
    by (auto simp: example_jt_def example_batch_def getitem_def split: if_splits)
  with forward_inverse_per_key [OF sub dist] obtain y w' where
    inv: "JointTransform_inverse example_jt 0 example_batch = (Inr y, w')"
    and y0: "y = top example_batch"
    and r: "\<forall>k t v. getitem (transformations example_jt) k = Inr t
              \<and> getitem (cells example_batch 0) k = Inr v
              \<longrightarrow> getitem (cells w' y) k = Inr (t_inv t v)"
    and o: "\<forall>k. k \<notin> set (keys (transformations example_jt))
              \<longrightarrow> getitem (cells w' y) k = getitem (cells example_batch 0) k"
    by blast
  from y0 have y: "y = 1"
    by (simp add: example_batch_def)
  from r a xa
  have "getitem (cells w' y) ''a'' = Inr (t_inv ExpTransform (Tensor [3, 2] [0, 0, 0, 0, 0, 0]))"
    by blast
  moreover from o b xb have "getitem (cells w' y) ''b'' = Inr (Tensor [3] [5, 5, 5])"
    by simp
  ultimately show ?thesis
    using sub dist cf ci inv y by (simp add: example_batch_forward)
qed

text \<open>
  The claim C2 as it is written promises a container for every container that covers the
  registry. The container below has batch size \<open>[3]\<close> and covers the registry; the
  registered transform turns the field \<open>a\<close>, of shape \<open>[3, 2]\<close>, into a tensor of shape
  \<open>[2, 3]\<close>, and \<^verbatim>\<open>update\<close> raises \<^verbatim>\<open>RuntimeError\<close> in \<^verbatim>\<open>_call\<close> and in
  \<^verbatim>\<open>_inverse\<close>.
\<close>

theorem forward_raises_on_batch_mismatch:
  "set (keys (transformations example_jt_reverse)) \<subseteq> set (keys (cells example_batch 0))
   \<and> fst (JointTransform_call example_jt_reverse 0 example_batch)
        = Inl (RuntimeError [3] [2, 3])
   \<and> fst (JointTransform_inverse example_jt_reverse 0 example_batch)
        = Inl (RuntimeError [3] [2, 3])"
  by (simp add: JointTransform_call_def JointTransform_inverse_def example_jt_reverse_def
      example_batch_def clone_def batch_dims_match_def getitem_def setitem_def invoke_def
      keys_def ReverseShapeTransform_def)

text \<open>
  C1, as the code has it. Round trip. Let \<open>x\<close> be a TensorDict whose keys cover the registry
  (a dictionary: its keys are distinct), let every registered transform undo itself on the
  field it is applied to (\<open>t.inv(t(x[k])) = x[k]\<close>, which holds of every two-sided inverse
  pair), and let every value \<open>t(x[k])\<close> have the batch dimensions of \<open>x\<close>. Then
  \<^verbatim>\<open>_call\<close> returns a new container \<open>y\<close>, \<^verbatim>\<open>_inverse\<close> applied to \<open>y\<close> returns a new
  container with the keys and the batch size of \<open>x\<close>, and its value at every key,
  registered or not, is the value in \<open>x\<close>.
\<close>

theorem inverse_forward_roundtrip:
  assumes sub: "set (keys (transformations self)) \<subseteq> set (keys (cells w x))"
    and dist: "distinct (keys (transformations self))"
    and wf: "is_TensorDict w x"
    and inv: "\<forall>k t v. getitem (transformations self) k = Inr t \<and> getitem (cells w x) k = Inr v
                \<longrightarrow> t_inv t (t_call t v) = v"
    and conf: "\<forall>k t v. getitem (transformations self) k = Inr t \<and> getitem (cells w x) k = Inr v
                \<longrightarrow> batch_dims_match (batch_size w x) (t_call t v)"
  shows "\<exists>y w1 z w2.
           JointTransform_call self x w = (Inr y, w1) \<and> y = top w
         \<and> JointTransform_inverse self y w1 = (Inr z, w2) \<and> z = Suc (top w)
         \<and> keys (cells w2 z) = keys (cells w x)
         \<and> batch_size w2 z = batch_size w x
         \<and> (\<forall>k. getitem (cells w2 z) k = getitem (cells w x) k)"
proof -
  from registered_conforms [OF conf dist]
  have conf1: "\<forall>(k, t) \<in> set (transformations self). \<forall>v. map_of (cells w x) k = Some v
                 \<longrightarrow> batch_dims_match (batch_size w x) (t_call t v)" .
  from JointTransform_call_success [OF sub dist conf1] obtain w1 where
    run1: "JointTransform_call self x w = (Inr (top w), w1)"
    and t1: "top w1 = Suc (top w)"
    and bs1: "batch_size w1 (top w) = batch_size w x"
    and ks1: "keys (cells w1 (top w)) = keys (cells w x)"
    and m1: "\<And>k. map_of (cells w1 (top w)) k =
            (case map_of (transformations self) k of
               None \<Rightarrow> map_of (cells w x) k
             | Some t \<Rightarrow> map_option (t_call t) (map_of (cells w x) k))"
    by blast
  from sub ks1 have sub1: "set (keys (transformations self)) \<subseteq> set (keys (cells w1 (top w)))"
    by simp
  have undo: "t_inv t u = v \<and> batch_dims_match (batch_size w x) v"
    if "map_of (transformations self) k = Some t" and "map_of (cells w1 (top w)) k = Some u"
      and "map_of (cells w x) k = Some v" for k t u v
  proof -
    from that have "u = t_call t v"
      by (simp add: m1)
    moreover from that inv have "t_inv t (t_call t v) = v"
      by (simp add: getitem_Inr_iff)
    moreover from that(3) have "(k, v) \<in> set (cells w x)"
      by (rule map_of_SomeD)
    with wf have "batch_dims_match (batch_size w x) v"
      by (auto simp: is_TensorDict_def list_all_iff)
    ultimately show ?thesis
      by simp
  qed
  have conf2: "\<forall>(k, t) \<in> set (transformations self). \<forall>u. map_of (cells w1 (top w)) k = Some u
                 \<longrightarrow> batch_dims_match (batch_size w1 (top w)) (t_inv t u)"
  proof (clarify)
    fix k t u
    assume kt: "(k, t) \<in> set (transformations self)" and u: "map_of (cells w1 (top w)) k = Some u"
    from kt dist have t: "map_of (transformations self) k = Some t"
      by (simp add: keys_def)
    from map_of_registered [OF t] sub have "k \<in> set (keys (cells w x))"
      by auto
    from getitem_mem [OF this] obtain v where v: "map_of (cells w x) k = Some v"
      by blast
    from undo [OF t u v] show "batch_dims_match (batch_size w1 (top w)) (t_inv t u)"
      by (simp add: bs1)
  qed
  from JointTransform_inverse_success [OF sub1 dist conf2] obtain w2 where
    run2: "JointTransform_inverse self (top w) w1 = (Inr (top w1), w2)"
    and bs2: "batch_size w2 (top w1) = batch_size w1 (top w)"
    and ks2: "keys (cells w2 (top w1)) = keys (cells w1 (top w))"
    and m2: "\<And>k. map_of (cells w2 (top w1)) k =
            (case map_of (transformations self) k of
               None \<Rightarrow> map_of (cells w1 (top w)) k
             | Some t \<Rightarrow> map_option (t_inv t) (map_of (cells w1 (top w)) k))"
    by blast
  have "map_of (cells w2 (top w1)) k = map_of (cells w x) k" for k
  proof (cases "map_of (transformations self) k")
    case None
    then show ?thesis by (simp add: m2 m1)
  next
    case (Some t)
    from map_of_registered [OF Some] sub have "k \<in> set (keys (cells w x))"
      by auto
    from getitem_mem [OF this] obtain v where v: "map_of (cells w x) k = Some v"
      by blast
    with Some have u: "map_of (cells w1 (top w)) k = Some (t_call t v)"
      by (simp add: m1)
    from undo [OF Some u v] Some u v show ?thesis
      by (simp add: m2)
  qed
  then have "\<forall>k. getitem (cells w2 (top w1)) k = getitem (cells w x) k"
    by (simp add: getitem_eq_iff)
  with run1 run2 ks1 ks2 bs1 bs2 t1 show ?thesis
    by simp
qed

theorem inverse_forward_roundtrip_witness:
  "set (keys (transformations example_jt)) \<subseteq> set (keys (cells example_batch 0))
   \<and> distinct (keys (transformations example_jt))
   \<and> is_TensorDict example_batch 0
   \<and> t_inv ExpTransform (t_call ExpTransform (Tensor [3, 2] [0, 0, 0, 0, 0, 0]))
        = Tensor [3, 2] [0, 0, 0, 0, 0, 0]
   \<and> batch_dims_match (batch_size example_batch 0)
        (t_call ExpTransform (Tensor [3, 2] [0, 0, 0, 0, 0, 0]))
   \<and> fst (JointTransform_call example_jt 0 example_batch) = Inr 1
   \<and> fst (JointTransform_inverse example_jt 1
            (snd (JointTransform_call example_jt 0 example_batch))) = Inr 2
   \<and> getitem (cells (snd (JointTransform_inverse example_jt 1
            (snd (JointTransform_call example_jt 0 example_batch)))) 2) ''a''
        = Inr (Tensor [3, 2] [0, 0, 0, 0, 0, 0])
   \<and> getitem (cells (snd (JointTransform_inverse example_jt 1
            (snd (JointTransform_call example_jt 0 example_batch)))) 2) ''b''
        = Inr (Tensor [3] [5, 5, 5])"
proof -
  have sub: "set (keys (transformations example_jt)) \<subseteq> set (keys (cells example_batch 0))"
    by (simp add: example_jt_def example_batch_def keys_def)
  have dist: "distinct (keys (transformations example_jt))"
    by (simp add: example_jt_def keys_def)
  have wf: "is_TensorDict example_batch 0"
    by (simp add: is_TensorDict_def example_batch_def batch_dims_match_def)
  have i: "t_inv ExpTransform (t_call ExpTransform (Tensor [3, 2] [0, 0, 0, 0, 0, 0]))
        = Tensor [3, 2] [0, 0, 0, 0, 0, 0]"
    by (simp add: ExpTransform_def tmap_def)
  have c: "batch_dims_match (batch_size example_batch 0)
        (t_call ExpTransform (Tensor [3, 2] [0, 0, 0, 0, 0, 0]))"
    by (simp add: example_batch_def batch_dims_match_def ExpTransform_def tmap_def)
  have inv: "\<forall>k t v. getitem (transformations example_jt) k = Inr t
          \<and> getitem (cells example_batch 0) k = Inr v \<longrightarrow> t_inv t (t_call t v) = v"
    using i by (auto simp: example_jt_def example_batch_def getitem_def split: if_splits)
  have conf: "\<forall>k t v. getitem (transformations example_jt) k = Inr t
          \<and> getitem (cells example_batch 0) k = Inr v
        \<longrightarrow> batch_dims_match (batch_size example_batch 0) (t_call t v)"
    using c by (auto simp: example_jt_def example_batch_def getitem_def split: if_splits)
  have xa: "getitem (cells example_batch 0) ''a'' = Inr (Tensor [3, 2] [0, 0, 0, 0, 0, 0])"
    and xb: "getitem (cells example_batch 0) ''b'' = Inr (Tensor [3] [5, 5, 5])"
    and t: "top example_batch = 1"
    by (simp_all add: example_batch_def getitem_def)
  from inverse_forward_roundtrip [OF sub dist wf inv conf] obtain y w1 z w2 where
    f: "JointTransform_call example_jt 0 example_batch = (Inr y, w1)"
    and y: "y = top example_batch"
    and b: "JointTransform_inverse example_jt y w1 = (Inr z, w2)"
    and z: "z = Suc (top example_batch)"
    and g: "\<forall>k. getitem (cells w2 z) k = getitem (cells example_batch 0) k"
    by blast
  from y t have y1: "y = 1"
    by simp
  from z t have z2: "z = 2"
    by simp
  from g xa have ga: "getitem (cells w2 z) ''a'' = Inr (Tensor [3, 2] [0, 0, 0, 0, 0, 0])"
    by simp
  from g xb have gb: "getitem (cells w2 z) ''b'' = Inr (Tensor [3] [5, 5, 5])"
    by simp
  from sub dist wf i c f b ga gb show ?thesis
    unfolding y1 z2 by simp
qed

text \<open>
  The claim C1 as it is written promises the round trip for every container that covers the
  registry and every registry of two-sided inverse pairs. \<open>ReverseShapeTransform\<close> is an
  involution on all tensors (lemma \<open>ReverseShapeTransform_involution\<close>) and reports
  \<open>bijective = True\<close>; the container below is a TensorDict with batch size \<open>[3]\<close> whose
  keys cover the registry, and \<^verbatim>\<open>_call\<close> raises \<^verbatim>\<open>RuntimeError\<close>: there is no
  \<open>forward(x)\<close> to invert.
\<close>

theorem roundtrip_forward_raises:
  "set (keys (transformations example_jt_reverse)) \<subseteq> set (keys (cells example_batch 0))
   \<and> is_TensorDict example_batch 0
   \<and> t_bijective ReverseShapeTransform
   \<and> t_inv ReverseShapeTransform
        (t_call ReverseShapeTransform (Tensor [3, 2] [0, 0, 0, 0, 0, 0]))
        = Tensor [3, 2] [0, 0, 0, 0, 0, 0]
   \<and> t_call ReverseShapeTransform
        (t_inv ReverseShapeTransform (Tensor [3, 2] [0, 0, 0, 0, 0, 0]))
        = Tensor [3, 2] [0, 0, 0, 0, 0, 0]
   \<and> fst (JointTransform_call example_jt_reverse 0 example_batch)
        = Inl (RuntimeError [3] [2, 3])"
  by (simp add: JointTransform_call_def example_jt_reverse_def is_TensorDict_def
      example_batch_def clone_def batch_dims_match_def getitem_def setitem_def invoke_def
      keys_def ReverseShapeTransform_def)

text \<open>
  C3, as the code has it. Let \<open>x\<close> and \<open>y\<close> be allocated objects with the same key set,
  which covers the registry, let \<open>x\<close> be a TensorDict, and let every value
  \<open>transform[k].log_abs_det_jacobian(x[k], y[k])\<close> have the batch dimensions of \<open>x\<close>. Then
  \<^verbatim>\<open>log_abs_det_jacobian(x, y)\<close> returns a new container with the keys and the batch
  size of \<open>x\<close>; a registered key \<open>k\<close> holds
  \<open>transform[k].log_abs_det_jacobian(x[k], y[k])\<close>, and a key that is not registered holds
  \<open>ones_like(x[k])\<close>: the shape of \<open>x[k]\<close>, every element the scalar one.
\<close>

theorem log_abs_det_jacobian_per_key:
  assumes eq: "set (keys (cells w x)) = set (keys (cells w y))"
    and sub: "set (keys (transformations self)) \<subseteq> set (keys (cells w x))"
    and alloc: "y < top w"
    and wf: "is_TensorDict w x"
    and conf: "\<forall>k t xv yv. getitem (transformations self) k = Inr t
                  \<and> getitem (cells w x) k = Inr xv \<and> getitem (cells w y) k = Inr yv
                \<longrightarrow> batch_dims_match (batch_size w x) (t_log_abs_det_jacobian t xv yv)"
  shows "\<exists>r w'. JointTransform_log_abs_det_jacobian self x y w = (Inr r, w') \<and> r = top w
          \<and> keys (cells w' r) = keys (cells w x)
          \<and> batch_size w' r = batch_size w x
          \<and> (\<forall>k t xv yv. getitem (transformations self) k = Inr t
                  \<and> getitem (cells w x) k = Inr xv \<and> getitem (cells w y) k = Inr yv
                \<longrightarrow> getitem (cells w' r) k = Inr (t_log_abs_det_jacobian t xv yv))
          \<and> (\<forall>k xv. k \<notin> set (keys (transformations self)) \<and> getitem (cells w x) k = Inr xv
                \<longrightarrow> getitem (cells w' r) k = Inr (ones_like xv)
                  \<and> shape (ones_like xv) = shape xv
                  \<and> elems (ones_like xv) = replicate (prod_list (shape xv)) 1)"
proof -
  from conf
  have conf': "\<forall>k t xv yv. map_of (transformations self) k = Some t
                 \<and> map_of (cells w x) k = Some xv \<and> map_of (cells w y) k = Some yv
                 \<longrightarrow> batch_dims_match (batch_size w x) (t_log_abs_det_jacobian t xv yv)"
    by (simp add: getitem_Inr_iff)
  from JointTransform_log_abs_det_jacobian_success [OF eq sub alloc wf conf'] obtain w' where
    run: "JointTransform_log_abs_det_jacobian self x y w = (Inr (top w), w')"
    and bs: "batch_size w' (top w) = batch_size w x"
    and ks: "keys (cells w' (top w)) = keys (cells w x)"
    and m: "\<And>k. map_of (cells w' (top w)) k =
              (case map_of (transformations self) k of
                 None \<Rightarrow> map_option ones_like (map_of (cells w x) k)
               | Some t \<Rightarrow>
                   (case map_of (cells w x) k of
                      None \<Rightarrow> None
                    | Some xv \<Rightarrow>
                        map_option (t_log_abs_det_jacobian t xv) (map_of (cells w y) k)))"
    by blast
  have reg: "getitem (cells w' (top w)) k = Inr (t_log_abs_det_jacobian t xv yv)"
    if "getitem (transformations self) k = Inr t
          \<and> getitem (cells w x) k = Inr xv \<and> getitem (cells w y) k = Inr yv" for k t xv yv
    using that by (simp add: getitem_Inr_iff m)
  have other: "getitem (cells w' (top w)) k = Inr (ones_like xv)
                  \<and> shape (ones_like xv) = shape xv
                  \<and> elems (ones_like xv) = replicate (prod_list (shape xv)) 1"
    if "k \<notin> set (keys (transformations self)) \<and> getitem (cells w x) k = Inr xv" for k xv
    using that map_of_unregistered [of k "transformations self"]
    by (simp add: getitem_Inr_iff m ones_like_def)
  from run bs ks reg other show ?thesis
    by blast
qed

theorem log_abs_det_jacobian_per_key_witness:
  "set (keys (cells example_batch_fwd 0)) = set (keys (cells example_batch_fwd 1))
   \<and> set (keys (transformations example_jt)) \<subseteq> set (keys (cells example_batch_fwd 0))
   \<and> (1::nat) < top example_batch_fwd
   \<and> is_TensorDict example_batch_fwd 0
   \<and> batch_dims_match (batch_size example_batch_fwd 0)
        (t_log_abs_det_jacobian ExpTransform (Tensor [3, 2] [0, 0, 0, 0, 0, 0])
           (Tensor [3, 2] [1, 1, 1, 1, 1, 1]))
   \<and> fst (JointTransform_log_abs_det_jacobian example_jt 0 1 example_batch_fwd) = Inr 2
   \<and> getitem (cells (snd (JointTransform_log_abs_det_jacobian example_jt 0 1
                              example_batch_fwd)) 2) ''a''
        = Inr (Tensor [3, 2] [0, 0, 0, 0, 0, 0])
   \<and> getitem (cells (snd (JointTransform_log_abs_det_jacobian example_jt 0 1
                              example_batch_fwd)) 2) ''b''
        = Inr (Tensor [3] [1, 1, 1])"
proof -
  have eq: "set (keys (cells example_batch_fwd 0)) = set (keys (cells example_batch_fwd 1))"
    by (simp add: example_batch_fwd_eq keys_def)
  have sub: "set (keys (transformations example_jt)) \<subseteq> set (keys (cells example_batch_fwd 0))"
    by (simp add: example_jt_def example_batch_fwd_eq keys_def)
  have alloc: "(1::nat) < top example_batch_fwd" and t: "top example_batch_fwd = 2"
    by (simp_all add: example_batch_fwd_eq)
  have wf: "is_TensorDict example_batch_fwd 0"
    by (simp add: is_TensorDict_def example_batch_fwd_eq batch_dims_match_def)
  have c: "batch_dims_match (batch_size example_batch_fwd 0)
        (t_log_abs_det_jacobian ExpTransform (Tensor [3, 2] [0, 0, 0, 0, 0, 0])
           (Tensor [3, 2] [1, 1, 1, 1, 1, 1]))"
    by (simp add: example_batch_fwd_eq batch_dims_match_def ExpTransform_def)
  have a: "getitem (transformations example_jt) ''a'' = Inr ExpTransform"
    and xa: "getitem (cells example_batch_fwd 0) ''a'' = Inr (Tensor [3, 2] [0, 0, 0, 0, 0, 0])"
    and ya: "getitem (cells example_batch_fwd 1) ''a'' = Inr (Tensor [3, 2] [1, 1, 1, 1, 1, 1])"
    and xb: "getitem (cells example_batch_fwd 0) ''b'' = Inr (Tensor [3] [5, 5, 5])"
    and b: "''b'' \<notin> set (keys (transformations example_jt))"
    by (simp_all add: example_jt_def example_batch_fwd_eq getitem_def keys_def)
  have conf: "\<forall>k t xv yv. getitem (transformations example_jt) k = Inr t
                  \<and> getitem (cells example_batch_fwd 0) k = Inr xv
                  \<and> getitem (cells example_batch_fwd 1) k = Inr yv
                \<longrightarrow> batch_dims_match (batch_size example_batch_fwd 0)
                      (t_log_abs_det_jacobian t xv yv)"
    using c by (auto simp: example_jt_def example_batch_fwd_eq getitem_def split: if_splits)
  from log_abs_det_jacobian_per_key [OF eq sub alloc wf conf] obtain r w' where
    run: "JointTransform_log_abs_det_jacobian example_jt 0 1 example_batch_fwd = (Inr r, w')"
    and r: "r = top example_batch_fwd"
    and reg: "\<forall>k t xv yv. getitem (transformations example_jt) k = Inr t
                  \<and> getitem (cells example_batch_fwd 0) k = Inr xv
                  \<and> getitem (cells example_batch_fwd 1) k = Inr yv
                \<longrightarrow> getitem (cells w' r) k = Inr (t_log_abs_det_jacobian t xv yv)"
    and other: "\<forall>k xv. k \<notin> set (keys (transformations example_jt))
                  \<and> getitem (cells example_batch_fwd 0) k = Inr xv
                \<longrightarrow> getitem (cells w' r) k = Inr (ones_like xv)
                  \<and> shape (ones_like xv) = shape xv
                  \<and> elems (ones_like xv) = replicate (prod_list (shape xv)) 1"
    by blast
  from reg a xa ya
  have "getitem (cells w' r) ''a'' = Inr (t_log_abs_det_jacobian ExpTransform
          (Tensor [3, 2] [0, 0, 0, 0, 0, 0]) (Tensor [3, 2] [1, 1, 1, 1, 1, 1]))"
    by blast
  then have ra: "getitem (cells w' r) ''a'' = Inr (Tensor [3, 2] [0, 0, 0, 0, 0, 0])"
    by (simp add: ExpTransform_def)
  from other b xb have "getitem (cells w' r) ''b'' = Inr (ones_like (Tensor [3] [5, 5, 5]))"
    by blast
  then have rb: "getitem (cells w' r) ''b'' = Inr (Tensor [3] [1, 1, 1])"
    by (simp add: ones_like_def numeral_3_eq_3)
  from eq sub alloc wf c run r t ra rb show ?thesis
    by simp
qed

text \<open>
  The claim C3 as it is written promises a container for all \<open>x\<close>, \<open>y\<close> with the same key
  set covering the registry. Below \<open>x\<close> and \<open>y\<close> are the same TensorDict of batch size
  \<open>[3]\<close>; the registered transform returns a 0-dimensional log-abs-det-Jacobian, and
  \<^verbatim>\<open>update\<close> raises \<^verbatim>\<open>RuntimeError\<close>.
\<close>

theorem jacobian_raises_on_batch_mismatch:
  "set (keys (cells example_batch 0)) = set (keys (cells example_batch 0))
   \<and> set (keys (transformations example_jt_reverse)) \<subseteq> set (keys (cells example_batch 0))
   \<and> (0::nat) < top example_batch
   \<and> is_TensorDict example_batch 0
   \<and> fst (JointTransform_log_abs_det_jacobian example_jt_reverse 0 0 example_batch)
        = Inl (RuntimeError [3] [])"
  by (simp add: JointTransform_log_abs_det_jacobian_def example_jt_reverse_def
      is_TensorDict_def example_batch_def clone_def batch_dims_match_def getitem_def
      setitem_def invoke_def keys_def ReverseShapeTransform_def ones_like_def)

text \<open>
  C10. With an empty registry \<^verbatim>\<open>_call\<close> and \<^verbatim>\<open>_inverse\<close> succeed on every container
  and return a clone, equal to the input at every key; \<^verbatim>\<open>bijective\<close> is true,
  \<^verbatim>\<open>domain\<close> and \<^verbatim>\<open>codomain\<close> are empty; for TensorDicts \<open>x\<close> and \<open>y\<close> with equal key
  sets (allocated objects; every field of \<open>x\<close> has the batch dimensions of \<open>x\<close>, as the
  library guarantees of a TensorDict) \<^verbatim>\<open>log_abs_det_jacobian\<close> succeeds and returns a
  container with the keys of \<open>x\<close> that holds \<open>ones_like(x[k])\<close> at every key \<open>k\<close>: a tensor
  of the shape of \<open>x[k]\<close> whose elements are all the scalar one. The constructor accepts the
  empty dictionary with the cache sizes 0 and 1.
\<close>

theorem empty_registry:
  assumes "transformations self = []"
  shows "fst (JointTransform_call self x w) = Inr (top w)
       \<and> cells (snd (JointTransform_call self x w)) (top w) = cells w x
       \<and> batch_size (snd (JointTransform_call self x w)) (top w) = batch_size w x
       \<and> fst (JointTransform_inverse self x w) = Inr (top w)
       \<and> cells (snd (JointTransform_inverse self x w)) (top w) = cells w x
       \<and> batch_size (snd (JointTransform_inverse self x w)) (top w) = batch_size w x
       \<and> JointTransform_bijective self
       \<and> JointTransform_domain self = []
       \<and> JointTransform_codomain self = []
       \<and> (set (keys (cells w x)) = set (keys (cells w y)) \<and> y < top w \<and> is_TensorDict w x \<longrightarrow>
            (\<exists>r w'. JointTransform_log_abs_det_jacobian self x y w = (Inr r, w') \<and> r = top w
               \<and> keys (cells w' r) = keys (cells w x)
               \<and> batch_size w' r = batch_size w x
               \<and> (\<forall>k xv. getitem (cells w x) k = Inr xv
                     \<longrightarrow> getitem (cells w' r) k = Inr (ones_like xv)
                       \<and> shape (ones_like xv) = shape xv
                       \<and> elems (ones_like xv) = replicate (prod_list (shape xv)) 1)))
       \<and> JointTransform_init [] 0 = Inr \<lparr>transformations = transformations self, cache_size = 0\<rparr>
       \<and> JointTransform_init [] 1 = Inr \<lparr>transformations = transformations self, cache_size = 1\<rparr>"
proof (intro conjI impI)
  show "fst (JointTransform_call self x w) = Inr (top w)"
    and "cells (snd (JointTransform_call self x w)) (top w) = cells w x"
    and "batch_size (snd (JointTransform_call self x w)) (top w) = batch_size w x"
    using assms by (simp_all add: JointTransform_call_def clone_def keys_def)
  show "fst (JointTransform_inverse self x w) = Inr (top w)"
    and "cells (snd (JointTransform_inverse self x w)) (top w) = cells w x"
    and "batch_size (snd (JointTransform_inverse self x w)) (top w) = batch_size w x"
    using assms by (simp_all add: JointTransform_inverse_def clone_def keys_def)
  show "JointTransform_bijective self"
    and "JointTransform_domain self = []"
    and "JointTransform_codomain self = []"
    using assms
    by (simp_all add: JointTransform_bijective_def JointTransform_domain_def
        JointTransform_codomain_def)
  show "JointTransform_init [] 0 = Inr \<lparr>transformations = transformations self, cache_size = 0\<rparr>"
    and "JointTransform_init [] 1 = Inr \<lparr>transformations = transformations self, cache_size = 1\<rparr>"
    using assms by (simp_all add: JointTransform_init_def Transform_init_def)
next
  assume a: "set (keys (cells w x)) = set (keys (cells w y)) \<and> y < top w \<and> is_TensorDict w x"
  then have eq: "set (keys (cells w x)) = set (keys (cells w y))" and alloc: "y < top w"
    and wf: "is_TensorDict w x"
    by simp_all
  have sub: "set (keys (transformations self)) \<subseteq> set (keys (cells w x))"
    using assms by (simp add: keys_def)
  have conf: "\<forall>k t xv yv. map_of (transformations self) k = Some t
                 \<and> map_of (cells w x) k = Some xv \<and> map_of (cells w y) k = Some yv
                 \<longrightarrow> batch_dims_match (batch_size w x) (t_log_abs_det_jacobian t xv yv)"
    using assms by simp
  from JointTransform_log_abs_det_jacobian_success [OF eq sub alloc wf conf] obtain w' where
    run: "JointTransform_log_abs_det_jacobian self x y w = (Inr (top w), w')"
    and bs: "batch_size w' (top w) = batch_size w x"
    and ks: "keys (cells w' (top w)) = keys (cells w x)"
    and m: "\<And>k. map_of (cells w' (top w)) k = map_option ones_like (map_of (cells w x) k)"
    using assms by auto
  have "getitem (cells w' (top w)) k = Inr (ones_like xv)
          \<and> shape (ones_like xv) = shape xv
          \<and> elems (ones_like xv) = replicate (prod_list (shape xv)) 1"
    if "getitem (cells w x) k = Inr xv" for k xv
    using that by (simp add: getitem_Inr_iff m ones_like_def)
  with run bs ks
  show "\<exists>r w'. JointTransform_log_abs_det_jacobian self x y w = (Inr r, w') \<and> r = top w
               \<and> keys (cells w' r) = keys (cells w x)
               \<and> batch_size w' r = batch_size w x
               \<and> (\<forall>k xv. getitem (cells w x) k = Inr xv
                     \<longrightarrow> getitem (cells w' r) k = Inr (ones_like xv)
                       \<and> shape (ones_like xv) = shape xv
                       \<and> elems (ones_like xv) = replicate (prod_list (shape xv)) 1)"
    by blast
qed

theorem empty_registry_witness:
  "transformations example_jt_empty = []
   \<and> JointTransform_init [] 0 = Inr example_jt_empty
   \<and> fst (JointTransform_call example_jt_empty 0 example_batch_fwd) = Inr 2
   \<and> cells (snd (JointTransform_call example_jt_empty 0 example_batch_fwd)) 2
        = [(''a'', Tensor [3, 2] [0, 0, 0, 0, 0, 0]), (''b'', Tensor [3] [5, 5, 5])]
   \<and> fst (JointTransform_inverse example_jt_empty 0 example_batch_fwd) = Inr 2
   \<and> cells (snd (JointTransform_inverse example_jt_empty 0 example_batch_fwd)) 2
        = [(''a'', Tensor [3, 2] [0, 0, 0, 0, 0, 0]), (''b'', Tensor [3] [5, 5, 5])]
   \<and> JointTransform_bijective example_jt_empty
   \<and> JointTransform_domain example_jt_empty = []
   \<and> JointTransform_codomain example_jt_empty = []
   \<and> set (keys (cells example_batch_fwd 0)) = set (keys (cells example_batch_fwd 1))
   \<and> (1::nat) < top example_batch_fwd
   \<and> is_TensorDict example_batch_fwd 0
   \<and> fst (JointTransform_log_abs_det_jacobian example_jt_empty 0 1 example_batch_fwd) = Inr 2
   \<and> getitem (cells (snd (JointTransform_log_abs_det_jacobian example_jt_empty 0 1
                              example_batch_fwd)) 2) ''a''
        = Inr (Tensor [3, 2] [1, 1, 1, 1, 1, 1])
   \<and> getitem (cells (snd (JointTransform_log_abs_det_jacobian example_jt_empty 0 1
                              example_batch_fwd)) 2) ''b''
        = Inr (Tensor [3] [1, 1, 1])"
proof -
  have e: "transformations example_jt_empty = []"
    by (simp add: example_jt_empty_def)
  have eq: "set (keys (cells example_batch_fwd 0)) = set (keys (cells example_batch_fwd 1))"
    by (simp add: example_batch_fwd_eq keys_def)
  have alloc: "(1::nat) < top example_batch_fwd"
    and t: "top example_batch_fwd = 2"
    and c0: "cells example_batch_fwd 0
               = [(''a'', Tensor [3, 2] [0, 0, 0, 0, 0, 0]), (''b'', Tensor [3] [5, 5, 5])]"
    by (simp_all add: example_batch_fwd_eq)
  have wf: "is_TensorDict example_batch_fwd 0"
    by (simp add: is_TensorDict_def example_batch_fwd_eq batch_dims_match_def)
  have xa: "getitem (cells example_batch_fwd 0) ''a'' = Inr (Tensor [3, 2] [0, 0, 0, 0, 0, 0])"
    and xb: "getitem (cells example_batch_fwd 0) ''b'' = Inr (Tensor [3] [5, 5, 5])"
    by (simp_all add: c0 getitem_def)
  note inst = empty_registry [OF e, of 0 example_batch_fwd 1]
  from inst eq alloc wf obtain r w' where
    run: "JointTransform_log_abs_det_jacobian example_jt_empty 0 1 example_batch_fwd
            = (Inr r, w')"
    and r: "r = top example_batch_fwd"
    and ones: "\<forall>k xv. getitem (cells example_batch_fwd 0) k = Inr xv
                 \<longrightarrow> getitem (cells w' r) k = Inr (ones_like xv)"
    by blast
  from r t have r2: "r = 2"
    by simp
  from ones xa have ra: "getitem (cells w' r) ''a'' = Inr (Tensor [3, 2] [1, 1, 1, 1, 1, 1])"
    by (simp add: ones_like_def eval_nat_numeral)
  from ones xb have rb: "getitem (cells w' r) ''b'' = Inr (Tensor [3] [1, 1, 1])"
    by (simp add: ones_like_def eval_nat_numeral)
  from inst e eq alloc wf run ra rb show ?thesis
    unfolding r2 by (simp add: t c0 example_jt_empty_def)
qed

end
